theory Spec2Isabelle
  imports Main "HOL-Library.Log_Nat" "HOL-Library.Signed_Division"
begin

section \<open>Go values: float64, int formatting, errors\<close>

text \<open>
  A finite \<^verbatim>\<open>float64\<close> is a rational number. \<open>f64 x\<close> is the binary64 value nearest
  to the exact result \<open>x\<close> of an arithmetic operation (round to nearest, ties to even, 53
  bits of precision, gradual underflow below \<open>2^-1022\<close>): \<open>ilog2 x\<close> is the binary
  exponent of \<open>x\<close>, \<open>ulp x\<close> the distance between neighbouring float64 values around
  \<open>x\<close>, and \<open>rne\<close> rounds to the nearest integer, a tie to the even one. Only finite
  values are modelled: \<^verbatim>\<open>encoding/json\<close> never decodes a NaN or an infinity, and no
  operation below overflows on the values it is given.
\<close>

definition ilog2 :: "rat \<Rightarrow> int" where
  "ilog2 x = (let (p, q) = quotient_of x; e0 = bitlen p - bitlen q
              in if 2 powi e0 \<le> x then e0 else e0 - 1)"

definition ulp :: "rat \<Rightarrow> rat" where
  "ulp x = 2 powi (max (ilog2 \<bar>x\<bar>) (- 1022) - 52)"

definition rne :: "rat \<Rightarrow> int" where
  "rne q = (let n = \<lfloor>q\<rfloor>; r = q - of_int n
            in if r < 1 / 2 then n else if 1 / 2 < r then n + 1
               else if even n then n else n + 1)"

definition f64 :: "rat \<Rightarrow> rat" where
  "f64 x = (if x = 0 then 0 else sgn x * (of_int (rne (\<bar>x\<bar> / ulp x)) * ulp x))"

text \<open>The conversion \<^verbatim>\<open>int(f)\<close> of a float64 truncates toward zero.\<close>

definition go_int :: "rat \<Rightarrow> int" where
  "go_int x = (if 0 \<le> x then \<lfloor>x\<rfloor> else - \<lfloor>- x\<rfloor>)"

text \<open>The verbs \<^verbatim>\<open>%d\<close>, \<^verbatim>\<open>%3d\<close>, \<^verbatim>\<open>%02d\<close> and \<^verbatim>\<open>%04d\<close> of \<^verbatim>\<open>fmt.Sprintf\<close>.\<close>

definition digit :: "nat \<Rightarrow> char" where
  "digit d = char_of (48 + d)"

fun showNat :: "nat \<Rightarrow> string" where
  "showNat n = (if n < 10 then [digit n] else showNat (n div 10) @ [digit (n mod 10)])"

declare showNat.simps [simp del]

definition fmt_d :: "int \<Rightarrow> string" where
  "fmt_d i = (if i < 0 then CHR ''-'' # showNat (nat (- i)) else showNat (nat i))"

definition fmt_wd :: "nat \<Rightarrow> int \<Rightarrow> string" where
  "fmt_wd w i = (let s = fmt_d i in replicate (w - length s) CHR '' '' @ s)"

definition fmt_0wd :: "nat \<Rightarrow> int \<Rightarrow> string" where
  "fmt_0wd w i =
     (if i < 0
      then (let s = showNat (nat (- i)) in CHR ''-'' # replicate (w - 1 - length s) CHR ''0'' @ s)
      else (let s = showNat (nat i) in replicate (w - length s) CHR ''0'' @ s))"

text \<open>
  Go errors: the three sentinel errors of \<^verbatim>\<open>claude_client.go\<close>, an error made by
  \<^verbatim>\<open>fmt.Errorf\<close> with \<^verbatim>\<open>%w\<close> around another error, and an error that wraps nothing.
  \<^verbatim>\<open>errors.Is\<close> compares and unwraps until it finds the target.
\<close>

datatype go_error =
    ErrAuthFailed
  | ErrOrgIDNotFound
  | ErrSessionExpired
  | Wrapped string go_error
  | Plain string

fun errors_Is :: "go_error \<Rightarrow> go_error \<Rightarrow> bool" where
  "errors_Is (Wrapped msg inner) target =
     (Wrapped msg inner = target \<or> errors_Is inner target)"
| "errors_Is err target = (err = target)"

section \<open>Time\<close>

text \<open>
  A \<^verbatim>\<open>time.Time\<close> is the number of nanoseconds since the zero Time, a
  \<^verbatim>\<open>time.Duration\<close> a number of nanoseconds in the range of \<^verbatim>\<open>int64\<close>.
  \<^verbatim>\<open>t.Sub(u)\<close> saturates at the ends of that range. The calendar and the time zone
  (\<^verbatim>\<open>Local\<close>, \<^verbatim>\<open>Year\<close>, ..., \<^verbatim>\<open>Minute\<close>) belong to the Go library and the
  operating system: they are a function from instants to wall-clock fields.
\<close>

record wall =
  Year :: int
  Month :: int
  Day :: int
  Hour :: int
  Minute :: int

definition IsZero :: "int \<Rightarrow> bool" where
  "IsZero t = (t = 0)"

definition maxDuration :: int where
  "maxDuration = 2 ^ 63 - 1"

definition minDuration :: int where
  "minDuration = - (2 ^ 63)"

definition Sub :: "int \<Rightarrow> int \<Rightarrow> int" where
  "Sub t u = (let d = t - u in
     if maxDuration < d then maxDuration else if d < minDuration then minDuration else d)"

text \<open>\<^verbatim>\<open>time.Until(t)\<close> is \<^verbatim>\<open>t.Sub(time.Now())\<close>; the clock reading is the first argument.\<close>

definition Until :: "int \<Rightarrow> int \<Rightarrow> int" where
  "Until now t = Sub t now"

definition NsPerMinute :: int where
  "NsPerMinute = 60 * 1000000000"

text \<open>
  \<^verbatim>\<open>Duration.Minutes\<close>: \<^verbatim>\<open>float64(d / Minute) + float64(d % Minute) / (60 * 1e9)\<close>,
  with Go's truncating integer division and float64 rounding of every operation.
\<close>

definition Minutes :: "int \<Rightarrow> rat" where
  "Minutes d =
     (let min = d sdiv NsPerMinute;
          nsec = d smod NsPerMinute
      in f64 (f64 (of_int min) + f64 (f64 (of_int nsec) / of_int NsPerMinute)))"

section \<open>Formatting helpers of the monitor\<close>

definition roundUtilization :: "rat \<Rightarrow> int" where
  "roundUtilization utilization = go_int (f64 (utilization + 1 / 2))"

definition green :: string where
  "green = [CHR 0xF0, CHR 0x9F, CHR 0x9F, CHR 0xA2]"

definition yellow :: string where
  "yellow = [CHR 0xF0, CHR 0x9F, CHR 0x9F, CHR 0xA1]"

definition red :: string where
  "red = [CHR 0xF0, CHR 0x9F, CHR 0x94, CHR 0xB4]"

definition white :: string where
  "white = [CHR 0xE2, CHR 0x9A, CHR 0xAA]"

definition getColorIndicator :: "rat \<Rightarrow> string" where
  "getColorIndicator utilization =
     (if utilization < 50 then green
      else if utilization < 80 then yellow
      else red)"

text \<open>
  \<^verbatim>\<open>int\<close> has 64 bits; the callers pass a minute of the hour or the minutes of a
  Duration (at most \<open>2^63 / (60 * 10^9)\<close>), so the sum below never wraps.
\<close>

definition roundToTenMinutes :: "int \<Rightarrow> int" where
  "roundToTenMinutes minutes = ((minutes + 5) sdiv 10) * 10"

definition calculateTimeUntilReset :: "int \<Rightarrow> int \<Rightarrow> int \<times> int \<times> bool" where
  "calculateTimeUntilReset now resetTime =
     (if IsZero resetTime then (0, 0, False)
      else
        (let duration = Until now resetTime in
         if duration < 0 then (0, 0, False)
         else
           (let totalMinutes = roundToTenMinutes (go_int (Minutes duration))
            in (totalMinutes sdiv 60, totalMinutes smod 60, True))))"

definition formatResetTime :: "(int \<Rightarrow> wall) \<Rightarrow> int \<Rightarrow> string" where
  "formatResetTime loc resetTime =
     (let local = loc resetTime;
          roundedMinutes = roundToTenMinutes (Minute local);
          hour = Hour local;
          hour' = (if 60 \<le> roundedMinutes then (hour + 1) smod 24 else hour);
          roundedMinutes' = (if 60 \<le> roundedMinutes then 0 else roundedMinutes)
      in fmt_0wd 4 (Year local) @ ''-'' @ fmt_0wd 2 (Month local) @ ''-'' @
         fmt_0wd 2 (Day local) @ '' '' @ fmt_0wd 2 hour' @ '':'' @ fmt_0wd 2 roundedMinutes')"

record UsageLimit =
  Utilization :: rat
  ResetsAt :: string
  ResetsAtTime :: int

record UsageLimits =
  FiveHour :: "UsageLimit option"
  SevenDay :: "UsageLimit option"
  SevenDayOAuthApps :: "UsageLimit option"
  SevenDayOpus :: "UsageLimit option"
  IguanaNecktie :: "UsageLimit option"
  LastUpdated :: int

definition formatUsageWithReset ::
  "(int \<Rightarrow> wall) \<Rightarrow> int \<Rightarrow> UsageLimit option \<Rightarrow> string \<Rightarrow> string" where
  "formatUsageWithReset loc now limit label =
     (case limit of
        None \<Rightarrow> label @ '' --''
      | Some l \<Rightarrow>
          (let utilization = roundUtilization (Utilization l);
               (hours, minutes, hasTime) = calculateTimeUntilReset now (ResetsAtTime l)
           in if \<not> hasTime \<and> utilization = 0
              then label @ '' '' @ fmt_d utilization @ ''% (no active session)''
              else if hasTime
              then label @ '' '' @ fmt_d utilization @ ''% (resets '' @
                   formatResetTime loc (ResetsAtTime l) @ '', in '' @ fmt_d hours @ ''h '' @
                   fmt_d minutes @ ''m)''
              else label @ '' '' @ fmt_d utilization @ ''%''))"

definition formatConsoleUsage ::
  "(int \<Rightarrow> wall) \<Rightarrow> int \<Rightarrow> UsageLimit option \<Rightarrow> string \<Rightarrow> string \<Rightarrow> string" where
  "formatConsoleUsage loc now limit label noSessionMsg =
     (case limit of
        None \<Rightarrow> label @ ''  --'' @ [CHR 0x0A]
      | Some l \<Rightarrow>
          (let utilization = roundUtilization (Utilization l);
               (hours, minutes, hasTime) = calculateTimeUntilReset now (ResetsAtTime l)
           in if hasTime
              then label @ ''  '' @ fmt_wd 3 utilization @ ''%  (resets '' @
                   formatResetTime loc (ResetsAtTime l) @ '', in '' @ fmt_d hours @ ''h '' @
                   fmt_d minutes @ ''m)'' @ [CHR 0x0A]
              else if noSessionMsg \<noteq> ''''
              then label @ ''  '' @ fmt_wd 3 utilization @ ''%  ('' @ noSessionMsg @ '')'' @
                   [CHR 0x0A]
              else label @ ''  '' @ fmt_wd 3 utilization @ ''%'' @ [CHR 0x0A]))"

definition getSelectedLimit :: "UsageLimits \<Rightarrow> string \<Rightarrow> UsageLimit option" where
  "getSelectedLimit limits indicator =
     (if indicator = ''currentSession'' then FiveHour limits
      else if indicator = ''weeklyAll'' then SevenDay limits
      else if indicator = ''weeklyOpus'' then SevenDayOpus limits
      else FiveHour limits)"

text \<open>The lines \<^verbatim>\<open>displayUsageStats\<close> prints, in order.\<close>

definition displayUsageStats :: "(int \<Rightarrow> wall) \<Rightarrow> int \<Rightarrow> UsageLimits \<Rightarrow> string list" where
  "displayUsageStats loc now limits =
     [''=== Current Usage ==='' @ [CHR 0x0A],
      formatConsoleUsage loc now (FiveHour limits) ''5-Hour Session:'' ''no active session'',
      formatConsoleUsage loc now (SevenDay limits) ''Weekly (All):'' '''',
      formatConsoleUsage loc now (SevenDayOpus limits) ''Weekly (Opus):'' '''',
      [CHR 0x0A]]"

section \<open>The menu bar application\<close>

text \<open>
  The global variables of the application and what the system tray shows: the title of the
  tray icon and the titles of the three menu items. \<open>claudeClient\<close> and \<open>lastLimits\<close> are
  pointers, \<open>None\<close> when nil; \<open>SavedAt\<close> of the configuration is a pointer to a Time.
  The HTTP client inside \<open>ClaudeUsageClient\<close> is left out: fetching is a function given
  to \<open>updateStats\<close>. One refresh reads the clock several times within the same call;
  the readings are one instant \<open>now\<close>.
\<close>

record ClaudeUsageClient =
  sessionKey :: string
  organizationID :: string

record Config =
  SessionKey :: string
  OrganizationID :: string
  SavedAt :: "int option"
  MenuBarIndicator :: string

record app =
  trayTitle :: string
  mCurrentSession :: string
  mWeeklyAll :: string
  mWeeklyOpus :: string
  appConfig :: Config
  claudeClient :: "ClaudeUsageClient option"
  lastLimits :: "UsageLimits option"

definition updateMenuBarDisplay :: "int \<Rightarrow> UsageLimits \<Rightarrow> app \<Rightarrow> app" where
  "updateMenuBarDisplay now limits s =
     (case getSelectedLimit limits (MenuBarIndicator (appConfig s)) of
        None \<Rightarrow> s\<lparr>trayTitle := white @ '' --''\<rparr>
      | Some l \<Rightarrow>
          (let utilization = roundUtilization (Utilization l);
               (hours, minutes, hasTime) = calculateTimeUntilReset now (ResetsAtTime l);
               indicator = getColorIndicator (Utilization l)
           in if hasTime
              then s\<lparr>trayTitle := indicator @ '' '' @ fmt_d utilization @ ''% ('' @
                     fmt_d hours @ ''h'' @ fmt_d minutes @ ''m)''\<rparr>
              else s\<lparr>trayTitle := indicator @ '' '' @ fmt_d utilization @ ''%''\<rparr>))"

text \<open>
  \<open>updateStats\<close>: the usage-data collaborator \<^verbatim>\<open>GetUsageLimits\<close> is the function
  \<open>fetch\<close>, called once, and only when there is a client.
\<close>

definition updateStats ::
  "(int \<Rightarrow> wall) \<Rightarrow> int \<Rightarrow> (ClaudeUsageClient \<Rightarrow> go_error + UsageLimits) \<Rightarrow> app \<Rightarrow> app" where
  "updateStats loc now fetch s =
     (case claudeClient s of
        None \<Rightarrow> s\<lparr>trayTitle := white @ '' Error''\<rparr>
      | Some c \<Rightarrow>
          (case fetch c of
             Inl err \<Rightarrow>
               (let s1 = s\<lparr>trayTitle := white @ '' Error''\<rparr>;
                    s2 = s1\<lparr>mCurrentSession := ''Error loading data''\<rparr>
                in if errors_Is err ErrAuthFailed
                   then s2\<lparr>mCurrentSession := ''Session expired - please login again''\<rparr>
                   else s2)
           | Inr limits \<Rightarrow>
               (let s1 = s\<lparr>mCurrentSession :=
                            formatUsageWithReset loc now (FiveHour limits) ''5-Hour Session:''\<rparr>;
                    s2 = s1\<lparr>mWeeklyAll :=
                            formatUsageWithReset loc now (SevenDay limits) ''Weekly (All):''\<rparr>;
                    s3 = s2\<lparr>mWeeklyOpus :=
                            formatUsageWithReset loc now (SevenDayOpus limits) ''Weekly (Opus):''\<rparr>;
                    s4 = s3\<lparr>lastLimits := Some limits\<rparr>
                in updateMenuBarDisplay now limits s4)))"

section \<open>The process identity guard\<close>

text \<open>
  \<^verbatim>\<open>strconv.Atoi\<close>: an optional sign, then one or more decimal digits and nothing else;
  a value outside \<^verbatim>\<open>int64\<close> is a range error.
\<close>

definition isDigit :: "char \<Rightarrow> bool" where
  "isDigit c = (48 \<le> (of_char c :: nat) \<and> (of_char c :: nat) \<le> 57)"

definition digitsValue :: "string \<Rightarrow> nat" where
  "digitsValue ds = foldl (\<lambda>n c. n * 10 + (of_char c - 48)) 0 ds"

definition Atoi :: "string \<Rightarrow> int option" where
  "Atoi s =
     (case s of
        [] \<Rightarrow> None
      | c # cs \<Rightarrow>
          (let neg = (c = CHR ''-'');
               ds = (if c = CHR ''-'' \<or> c = CHR ''+'' then cs else s)
           in if ds = [] \<or> \<not> list_all isDigit ds then None
              else
                (let n = int (digitsValue ds);
                     v = (if neg then - n else n)
                 in if v < - (2 ^ 63) \<or> 2 ^ 63 - 1 < v then None else Some v)))"

text \<open>
  What \<open>isRunning\<close> sees of the operating system: the content of the file at the path
  \<open>pidFile\<close> (\<open>None\<close> when \<^verbatim>\<open>os.ReadFile\<close> fails), whether \<^verbatim>\<open>os.FindProcess\<close>
  finds a process, and whether signal 0 can be sent to it. \<^verbatim>\<open>os.Remove\<close> deletes the
  file; its error is ignored by the code.
\<close>

record os =
  pidFile :: "string option"
  findProcess :: "int \<Rightarrow> bool"
  signal0 :: "int \<Rightarrow> bool"

definition Remove :: "os \<Rightarrow> os" where
  "Remove s = s\<lparr>pidFile := None\<rparr>"

definition isRunning :: "os \<Rightarrow> bool \<times> os" where
  "isRunning s =
     (case pidFile s of
        None \<Rightarrow> (False, s)
      | Some data \<Rightarrow>
          (case Atoi data of
             None \<Rightarrow> (False, Remove s)
           | Some pid \<Rightarrow>
               if \<not> findProcess s pid then (False, Remove s)
               else if \<not> signal0 s pid then (False, Remove s)
               else (True, s)))"

text \<open>\<^verbatim>\<open>strconv.Itoa\<close> is \<^verbatim>\<open>%d\<close>; the argument is \<^verbatim>\<open>os.Getpid()\<close>.\<close>

definition createPIDFile :: "int \<Rightarrow> os \<Rightarrow> os" where
  "createPIDFile getpid s = s\<lparr>pidFile := Some (fmt_d getpid)\<rparr>"

definition cleanup :: "os \<Rightarrow> os" where
  "cleanup s = Remove s"

section \<open>The background detacher\<close>

text \<open>
  The process environment as \<open>daemonize\<close> uses it: the environment variables,
  the result of \<^verbatim>\<open>os.Executable\<close> and the result of starting a command (the process
  identifier of the child, or an error). A standard stream of a command is \<open>None\<close> when
  the field is nil: the child then gets the null device, not the parent's stream. The run
  of \<open>daemonize\<close> is the list of its effects, in order, and how it ends: it returns to
  its caller or the process exits with a status. \<open>StartProcess\<close> is the call of
  \<^verbatim>\<open>cmd.Start\<close>, which creates the child or fails; \<open>Sleep\<close> takes nanoseconds.
\<close>

record Cmd =
  Path :: string
  Args :: "string list"
  Env :: "string list"
  Stdin :: "nat option"
  Stdout :: "nat option"
  Stderr :: "nat option"

record proc =
  environ :: "(string \<times> string) list"
  Executable :: "go_error + string"
  Start :: "Cmd \<Rightarrow> go_error + int"

datatype effect =
    Print string
  | PrintErr string
  | StartProcess Cmd
  | Sleep int

datatype ending = Returns | Exits int

definition Getenv :: "proc \<Rightarrow> string \<Rightarrow> string" where
  "Getenv p key = (case map_of (environ p) key of None \<Rightarrow> [] | Some v \<Rightarrow> v)"

definition Environ :: "proc \<Rightarrow> string list" where
  "Environ p = map (\<lambda>(k, v). k @ ''='' @ v) (environ p)"

fun Error :: "go_error \<Rightarrow> string" where
  "Error ErrAuthFailed = ''authentication failed - session may have expired''"
| "Error ErrOrgIDNotFound = ''organization ID not found in response''"
| "Error ErrSessionExpired = ''session expired''"
| "Error (Wrapped msg inner) = msg"
| "Error (Plain msg) = msg"

definition Command :: "string \<Rightarrow> Cmd" where
  "Command name =
     \<lparr>Path = name, Args = [name], Env = [], Stdin = None, Stdout = None, Stderr = None\<rparr>"

definition daemonStartupDelay :: int where
  "daemonStartupDelay = 100 * 1000000"

definition daemonize :: "proc \<Rightarrow> effect list \<times> ending" where
  "daemonize p =
     (if Getenv p ''CLAUDE_MONITOR_DAEMON'' = ''1'' then ([], Returns)
      else
        (case Executable p of
           Inl err \<Rightarrow>
             ([PrintErr (''Failed to get executable path: '' @ Error err @ [CHR 0x0A])], Exits 1)
         | Inr executable \<Rightarrow>
             (let cmd0 = Command executable;
                  cmd1 = cmd0\<lparr>Env := Environ p @ [''CLAUDE_MONITOR_DAEMON=1'']\<rparr>;
                  cmd = cmd1\<lparr>Stdin := None, Stdout := None, Stderr := None\<rparr>
              in case Start p cmd of
                   Inl err \<Rightarrow>
                     ([StartProcess cmd,
                       PrintErr (''Failed to start background process: '' @ Error err @
                         [CHR 0x0A])],
                      Exits 1)
                 | Inr pid \<Rightarrow>
                     ([StartProcess cmd,
                       Print (''Claude Monitor Lite started in background (PID: '' @ fmt_d pid @
                         '')'' @ [CHR 0x0A]),
                       Print (''Click the menu bar icon to view usage.'' @ [CHR 0x0A]),
                       Print (''Quit via the menu bar to stop.'' @ [CHR 0x0A]),
                       Sleep daemonStartupDelay],
                      Exits 0))))"

section \<open>The configuration file\<close>

text \<open>
  The configuration file holds JSON. Its content is modelled after the syntax check of
  \<^verbatim>\<open>json.Unmarshal\<close>: either it is not JSON at all, or it is a JSON value (the members
  of an object in the order of the text, strings with their escapes decoded).
\<close>

datatype json =
    JNull
  | JBool bool
  | JNumber rat
  | JString string
  | JArray "json list"
  | JObject "(string \<times> json) list"

datatype content = NotJSON | Doc json

text \<open>
  \<^verbatim>\<open>json.Unmarshal\<close> into a \<open>Config\<close>. A member is matched to a field by the name in
  the field's tag, exactly or under the case folding of \<^verbatim>\<open>encoding/json\<close>: ASCII letters
  to upper case, and the two runes whose fold orbit holds an ASCII letter (U+017F to S,
  U+212A to K); no other rune folds to an ASCII letter, so none can match a field. Members
  with other names are skipped; with repeated names the later member wins. A string field
  takes a JSON string, null leaves it as it is, any other value is a type error. The field
  \<open>SavedAt\<close> is a pointer to a Time: null makes it nil, a JSON string is parsed by
  \<^verbatim>\<open>Time.UnmarshalJSON\<close> (the function \<open>parseTime\<close>, of the Go library), any other value
  is an error. At the top, null changes nothing and any value but an object is a type
  error. \<open>Unmarshal\<close> is \<open>None\<close> when \<^verbatim>\<open>json.Unmarshal\<close> returns an error; both callers
  then discard the partly filled value.
\<close>

definition upper :: "char \<Rightarrow> char" where
  "upper c = (if 97 \<le> (of_char c :: nat) \<and> (of_char c :: nat) \<le> 122
              then char_of ((of_char c :: nat) - 32) else c)"

fun foldName :: "string \<Rightarrow> string" where
  "foldName (a # b # c # rest) =
     (if a = CHR 0xE2 \<and> b = CHR 0x84 \<and> c = CHR 0xAA then CHR ''K'' # foldName rest
      else if a = CHR 0xC5 \<and> b = CHR 0xBF then CHR ''S'' # foldName (c # rest)
      else upper a # foldName (b # c # rest))"
| "foldName [a, b] =
     (if a = CHR 0xC5 \<and> b = CHR 0xBF then ''S'' else [upper a, upper b])"
| "foldName [a] = [upper a]"
| "foldName [] = []"

datatype field = SessionKeyField | OrganizationIDField | SavedAtField | MenuBarIndicatorField

definition fieldByName :: "string \<Rightarrow> field option" where
  "fieldByName key =
     (let k = foldName key in
      if k = foldName ''sessionKey'' then Some SessionKeyField
      else if k = foldName ''organizationId'' then Some OrganizationIDField
      else if k = foldName ''savedAt'' then Some SavedAtField
      else if k = foldName ''menuBarIndicator'' then Some MenuBarIndicatorField
      else None)"

definition decodeString :: "json \<Rightarrow> string \<Rightarrow> string option" where
  "decodeString v old =
     (case v of JString s \<Rightarrow> Some s | JNull \<Rightarrow> Some old | _ \<Rightarrow> None)"

definition decodeTime :: "(string \<Rightarrow> int option) \<Rightarrow> json \<Rightarrow> int option option" where
  "decodeTime parseTime v =
     (case v of
        JNull \<Rightarrow> Some None
      | JString s \<Rightarrow> (case parseTime s of None \<Rightarrow> None | Some t \<Rightarrow> Some (Some t))
      | _ \<Rightarrow> None)"

definition decodeMember ::
  "(string \<Rightarrow> int option) \<Rightarrow> Config \<Rightarrow> string \<times> json \<Rightarrow> Config option" where
  "decodeMember parseTime c m =
     (case fieldByName (fst m) of
        None \<Rightarrow> Some c
      | Some SessionKeyField \<Rightarrow>
          map_option (\<lambda>x. c\<lparr>SessionKey := x\<rparr>) (decodeString (snd m) (SessionKey c))
      | Some OrganizationIDField \<Rightarrow>
          map_option (\<lambda>x. c\<lparr>OrganizationID := x\<rparr>) (decodeString (snd m) (OrganizationID c))
      | Some SavedAtField \<Rightarrow>
          map_option (\<lambda>x. c\<lparr>SavedAt := x\<rparr>) (decodeTime parseTime (snd m))
      | Some MenuBarIndicatorField \<Rightarrow>
          map_option (\<lambda>x. c\<lparr>MenuBarIndicator := x\<rparr>)
            (decodeString (snd m) (MenuBarIndicator c)))"

fun decodeMembers ::
  "(string \<Rightarrow> int option) \<Rightarrow> Config \<Rightarrow> (string \<times> json) list \<Rightarrow> Config option" where
  "decodeMembers parseTime c [] = Some c"
| "decodeMembers parseTime c (m # ms) =
     (case decodeMember parseTime c m of
        None \<Rightarrow> None
      | Some c' \<Rightarrow> decodeMembers parseTime c' ms)"

definition Unmarshal :: "(string \<Rightarrow> int option) \<Rightarrow> json \<Rightarrow> Config \<Rightarrow> Config option" where
  "Unmarshal parseTime data c =
     (case data of
        JNull \<Rightarrow> Some c
      | JObject ms \<Rightarrow> decodeMembers parseTime c ms
      | _ \<Rightarrow> None)"

text \<open>
  \<^verbatim>\<open>json.MarshalIndent\<close> of a \<open>Config\<close>: the fields in their order, under the names of
  their tags; \<^verbatim>\<open>omitempty\<close> leaves out an empty string and a nil pointer.
  \<^verbatim>\<open>Time.MarshalJSON\<close> is the function \<open>formatTime\<close>, \<open>None\<close> when it returns an error.
\<close>

definition omitempty :: "string \<Rightarrow> string \<Rightarrow> (string \<times> json) list" where
  "omitempty name v = (if v = [] then [] else [(name, JString v)])"

definition MarshalIndent :: "(int \<Rightarrow> string option) \<Rightarrow> Config \<Rightarrow> json option" where
  "MarshalIndent formatTime c =
     (case SavedAt c of
        None \<Rightarrow>
          Some (JObject (omitempty ''sessionKey'' (SessionKey c) @
            omitempty ''organizationId'' (OrganizationID c) @
            [(''menuBarIndicator'', JString (MenuBarIndicator c))]))
      | Some t \<Rightarrow>
          (case formatTime t of
             None \<Rightarrow> None
           | Some text \<Rightarrow>
               Some (JObject (omitempty ''sessionKey'' (SessionKey c) @
                 omitempty ''organizationId'' (OrganizationID c) @
                 [(''savedAt'', JString text),
                  (''menuBarIndicator'', JString (MenuBarIndicator c))]))))"

definition zeroConfig :: Config where
  "zeroConfig = \<lparr>SessionKey = [], OrganizationID = [], SavedAt = None, MenuBarIndicator = []\<rparr>"

text \<open>
  The file at \<^verbatim>\<open>GetConfigPath()\<close> is \<open>None\<close> when \<^verbatim>\<open>os.ReadFile\<close> fails.
  \<^verbatim>\<open>os.WriteFile\<close> replaces the content.
\<close>

definition LoadConfig :: "(string \<Rightarrow> int option) \<Rightarrow> content option \<Rightarrow> Config" where
  "LoadConfig parseTime file =
     (let defaultConfig = zeroConfig\<lparr>MenuBarIndicator := ''currentSession''\<rparr>
      in case file of
           None \<Rightarrow> defaultConfig
         | Some NotJSON \<Rightarrow> defaultConfig
         | Some (Doc data) \<Rightarrow>
             (case Unmarshal parseTime data zeroConfig of
                None \<Rightarrow> defaultConfig
              | Some config \<Rightarrow>
                  if MenuBarIndicator config = []
                  then config\<lparr>MenuBarIndicator := ''currentSession''\<rparr>
                  else config))"

definition SaveConfigPreservingSession ::
  "(string \<Rightarrow> int option) \<Rightarrow> (int \<Rightarrow> string option) \<Rightarrow> string \<Rightarrow> content option \<Rightarrow>
     go_error option \<times> content option" where
  "SaveConfigPreservingSession parseTime formatTime menuBarIndicator file =
     (let existing =
            (case file of
               None \<Rightarrow> zeroConfig
             | Some NotJSON \<Rightarrow> zeroConfig
             | Some (Doc existingData) \<Rightarrow>
                 (case Unmarshal parseTime existingData zeroConfig of
                    None \<Rightarrow> zeroConfig
                  | Some c \<Rightarrow> c));
          existing' = existing\<lparr>MenuBarIndicator := menuBarIndicator\<rparr>
      in case MarshalIndent formatTime existing' of
           None \<Rightarrow> (Some (Plain ''json: error calling MarshalJSON for type *time.Time''), file)
         | Some data \<Rightarrow> (None, Some (Doc data)))"

section \<open>A sample of the time codec\<close>

text \<open>
  One timestamp of the Go library's RFC 3339 codec, for evaluating the configuration
  functions on concrete files: midnight UTC of 1 January 2025 and its text.
\<close>

definition exampleParseTime :: "string \<Rightarrow> int option" where
  "exampleParseTime str =
     (if str = ''2025-01-01T00:00:00Z'' then Some 63871286400000000000 else None)"

definition exampleFormatTime :: "int \<Rightarrow> string option" where
  "exampleFormatTime t =
     (if t = 63871286400000000000 then Some ''2025-01-01T00:00:00Z'' else None)"

section \<open>Two notions as the specification words them\<close>

text \<open>Round half up: the whole number nearest to \<open>u\<close>, a half going up.\<close>

definition round_half_up :: "rat \<Rightarrow> int" where
  "round_half_up u = \<lfloor>u + 1 / 2\<rfloor>"

text \<open>
  The order in which the specification lists the last steps of detaching: the parent
  waits, then prints the line with the child's process identifier. \<open>waits_then_prints\<close>
  holds of a run that sleeps and prints the given line after its first sleep.
\<close>

fun waits_then_prints :: "effect list \<Rightarrow> string \<Rightarrow> bool" where
  "waits_then_prints [] line = False"
| "waits_then_prints (Sleep d # es) line = (Print line \<in> set es)"
| "waits_then_prints (e # es) line = waits_then_prints es line"

section \<open>Arithmetic of the helpers\<close>

text \<open>
  \<open>ilog2\<close> is the floor of the binary logarithm, so \<open>ulp\<close> is the spacing of the
  float64 values of the binade of its argument.
\<close>

lemma bitlen_powi:
  assumes "0 < k"
  shows "(2::rat) powi (bitlen k - 1) \<le> of_int k" "of_int k < (2::rat) powi bitlen k"
proof -
  from assms have b: "1 \<le> bitlen k" by (auto simp: bitlen_alt_def)
  from bitlen_bounds [OF assms] have "2 ^ nat (bitlen k - 1) \<le> k" "k < 2 ^ nat (bitlen k)"
    by simp_all
  then have "(of_int (2 ^ nat (bitlen k - 1)) :: rat) \<le> of_int k"
    "(of_int k :: rat) < of_int (2 ^ nat (bitlen k))"
    by (simp_all only: of_int_le_iff of_int_less_iff)
  with b show "(2::rat) powi (bitlen k - 1) \<le> of_int k" "of_int k < (2::rat) powi bitlen k"
    by (simp_all add: power_int_def)
qed

lemma ilog2_bounds:
  assumes "0 < x"
  shows "2 powi ilog2 x \<le> x" and "x < 2 powi (ilog2 x + 1)"
proof -
  obtain p q where pq: "quotient_of x = (p, q)" by (cases "quotient_of x")
  then have q: "0 < q" by (rule quotient_of_denom_pos)
  have x: "x = of_int p / of_int q" using pq by (rule quotient_of_div)
  with assms q have p: "0 < p" by (simp add: zero_less_divide_iff)
  let ?e = "bitlen p - bitlen q"
  have lo: "(2::rat) powi (?e - 1) \<le> x"
  proof -
    have "(2::rat) powi (?e - 1) = 2 powi (bitlen p - 1) / 2 powi bitlen q"
      by (simp add: power_int_diff [symmetric] algebra_simps)
    also have "\<dots> \<le> of_int p / of_int q"
      using bitlen_powi [OF p] bitlen_powi [OF q] p q
      by (intro frac_le) (simp_all add: less_imp_le)
    finally show ?thesis by (simp add: x)
  qed
  have hi: "x < (2::rat) powi (?e + 1)"
  proof -
    have "of_int p / of_int q < (2::rat) powi bitlen p / 2 powi (bitlen q - 1)"
      using bitlen_powi [OF p] bitlen_powi [OF q] p
      by (intro frac_less) simp_all
    also have "\<dots> = 2 powi (?e + 1)"
      by (simp add: power_int_diff [symmetric] algebra_simps)
    finally show ?thesis by (simp add: x)
  qed
  have i: "ilog2 x = (if 2 powi ?e \<le> x then ?e else ?e - 1)"
    by (simp add: ilog2_def pq Let_def)
  show "2 powi ilog2 x \<le> x" using lo by (simp add: i)
  show "x < 2 powi (ilog2 x + 1)" using hi by (simp add: i not_le)
qed

lemma ilog2_unique:
  assumes "0 < x" "2 powi e \<le> x" "x < 2 powi (e + 1)"
  shows "ilog2 x = e"
proof (rule antisym)
  show "ilog2 x \<le> e"
  proof (rule ccontr)
    assume "\<not> ilog2 x \<le> e"
    then have "e + 1 \<le> ilog2 x" by simp
    then have "(2::rat) powi (e + 1) \<le> 2 powi ilog2 x" by (intro power_int_increasing) simp_all
    with ilog2_bounds(1) [OF assms(1)] assms(3) show False by simp
  qed
  show "e \<le> ilog2 x"
  proof (rule ccontr)
    assume "\<not> e \<le> ilog2 x"
    then have "ilog2 x + 1 \<le> e" by simp
    then have "(2::rat) powi (ilog2 x + 1) \<le> 2 powi e" by (intro power_int_increasing) simp_all
    with ilog2_bounds(2) [OF assms(1)] assms(2) show False by simp
  qed
qed

lemma ulp_pos: "0 < ulp x"
  by (simp add: ulp_def)

lemma rne_of_int: "rne (of_int j) = j"
  by (simp add: rne_def)

lemma rne_ge: "of_int N \<le> q \<Longrightarrow> N \<le> rne q"
proof -
  assume "of_int N \<le> q"
  then have "N \<le> \<lfloor>q\<rfloor>" by (simp add: le_floor_iff)
  then show ?thesis by (simp add: rne_def Let_def)
qed

lemma rne_le: "q \<le> of_int N \<Longrightarrow> rne q \<le> N"
proof -
  assume q: "q \<le> of_int N"
  then have n: "\<lfloor>q\<rfloor> \<le> N" by (simp add: floor_le_iff)
  show ?thesis
  proof (cases "\<lfloor>q\<rfloor> = N")
    case True
    with q have "q = of_int N" using of_int_floor_le [of q] by simp
    then show ?thesis by (simp add: rne_of_int)
  next
    case False
    with n have "\<lfloor>q\<rfloor> + 1 \<le> N" by simp
    then show ?thesis by (simp add: rne_def Let_def)
  qed
qed

lemma rne_less: "q < of_int N - 1 / 2 \<Longrightarrow> rne q < N"
proof -
  assume q: "q < of_int N - 1 / 2"
  then have "q < of_int N" by simp
  then have n: "\<lfloor>q\<rfloor> < N" by (simp add: floor_less_iff)
  show ?thesis
  proof (cases "\<lfloor>q\<rfloor> = N - 1")
    case True
    with q have "q - of_int \<lfloor>q\<rfloor> < 1 / 2" by simp
    with n show ?thesis by (simp add: rne_def Let_def)
  next
    case False
    with n have "\<lfloor>q\<rfloor> + 1 < N" by simp
    then show ?thesis by (simp add: rne_def Let_def)
  qed
qed

lemma f64_pos: "0 < x \<Longrightarrow> f64 x = of_int (rne (x / ulp x)) * ulp x"
  by (simp add: f64_def)

lemma ulp_of:
  assumes "0 < x" "2 powi e \<le> x" "x < 2 powi (e + 1)" "- 1022 \<le> e"
  shows "ulp x = 2 powi (e - 52)"
  using ilog2_unique [OF assms(1-3)] assms(1,4) by (simp add: ulp_def)

lemma double_grid:
  assumes "f64 u = u" "0 < u"
  shows "\<exists>M. u = of_int M * ulp u"
  using f64_pos [OF assms(2)] assms(1) by metis

lemma rne_upper: "of_int (rne q) \<le> q + 1"
proof -
  have "rne q \<le> \<lfloor>q\<rfloor> + 1" by (simp add: rne_def Let_def)
  then have "(of_int (rne q) :: rat) \<le> of_int (\<lfloor>q\<rfloor> + 1)" by (simp only: of_int_le_iff)
  also have "\<dots> \<le> q + 1" by simp
  finally show ?thesis .
qed

lemma f64_nonneg: "0 \<le> f64 x" if "0 \<le> x"
proof (cases "x = 0")
  case True
  then show ?thesis by (simp add: f64_def)
next
  case False
  with that have pos: "0 < x" by simp
  have "(0::rat) \<le> x / ulp x" using pos ulp_pos [of x] by simp
  then have "0 \<le> rne (x / ulp x)" using rne_ge [of 0 "x / ulp x"] by simp
  then show ?thesis using ulp_pos [of x] by (simp add: f64_pos [OF pos])
qed

text \<open>Rounding is monotone against float64 values.\<close>

lemma ilog2_mono:
  assumes "0 < x" "x \<le> y"
  shows "ilog2 x \<le> ilog2 y"
proof (rule ccontr)
  assume "\<not> ilog2 x \<le> ilog2 y"
  then have "ilog2 y + 1 \<le> ilog2 x" by simp
  then have "(2::rat) powi (ilog2 y + 1) \<le> 2 powi ilog2 x"
    by (intro power_int_increasing) simp_all
  moreover from assms have "0 < y" by simp
  ultimately show False
    using ilog2_bounds(1) [OF assms(1)] ilog2_bounds(2) [of y] assms(2) by simp
qed

lemma f64_le_float:
  assumes x: "0 < x" "x \<le> c" and c: "f64 c = c"
  shows "f64 x \<le> c"
proof -
  from x have posc: "0 < c" by simp
  define ex where "ex = max (ilog2 x) (- 1022)"
  define ec where "ec = max (ilog2 c) (- 1022)"
  have Ux: "ulp x = 2 powi (ex - 52)" using x(1) by (simp add: ulp_def ex_def)
  have Uc: "ulp c = 2 powi (ec - 52)" using posc by (simp add: ulp_def ec_def)
  have le: "ex \<le> ec" using ilog2_mono [OF x] by (simp add: ex_def ec_def)
  show ?thesis
  proof (cases "ex = ec")
    case True
    then have U: "ulp x = ulp c" by (simp add: Ux Uc)
    from double_grid [OF c posc] obtain C where C: "c = of_int C * ulp c" by blast
    have "x \<le> of_int C * ulp c" using x(2) by (subst C [symmetric])
    then have "x / ulp x \<le> of_int C"
      using ulp_pos [of c] by (simp add: U pos_divide_le_eq)
    then have "rne (x / ulp x) \<le> C" by (rule rne_le)
    then have "(of_int (rne (x / ulp x)) :: rat) \<le> of_int C" by (simp only: of_int_le_iff)
    then have "of_int (rne (x / ulp x)) * ulp x \<le> of_int C * ulp x"
      using ulp_pos [of x] by (simp only: mult_le_cancel_right_pos)
    then show ?thesis using C by (simp add: f64_pos [OF x(1)] U)
  next
    case False
    with le have lt: "ex + 1 \<le> ec" by simp
    then have "ec \<noteq> - 1022" by (simp add: ex_def)
    then have ec: "ec = ilog2 c" by (simp add: ec_def max_def split: if_splits)
    have "ilog2 x + 1 \<le> ex + 1" by (simp add: ex_def)
    then have "(2::rat) powi (ilog2 x + 1) \<le> 2 powi (ex + 1)"
      by (intro power_int_increasing) simp_all
    with ilog2_bounds(2) [OF x(1)] have "x \<le> 2 powi (ex + 1)" by simp
    then have "x / ulp x \<le> 2 powi (ex + 1) / 2 powi (ex - 52)"
      unfolding Ux by (simp add: divide_right_mono)
    also have "\<dots> = 2 powi 53" by (simp add: power_int_diff [symmetric])
    finally have "x / ulp x \<le> of_int (2 ^ 53)" by simp
    then have "rne (x / ulp x) \<le> 2 ^ 53" by (rule rne_le)
    then have "(of_int (rne (x / ulp x)) :: rat) \<le> of_int (2 ^ 53)"
      by (simp only: of_int_le_iff)
    then have "of_int (rne (x / ulp x)) * ulp x \<le> of_int (2 ^ 53) * ulp x"
      using ulp_pos [of x] by (simp only: mult_le_cancel_right_pos)
    also have "of_int (2 ^ 53) * ulp x = 2 powi (ex + 1)"
    proof -
      have e: "ex + 1 = 53 + (ex - 52)" by simp
      have "(2::rat) powi (ex + 1) = 2 powi (53 + (ex - 52))" by (subst e) (rule refl)
      also have "\<dots> = 2 powi 53 * 2 powi (ex - 52)" by (rule power_int_add) simp
      finally show ?thesis by (simp add: Ux)
    qed
    also have "\<dots> \<le> 2 powi ec" using lt by (intro power_int_increasing) simp_all
    also have "\<dots> \<le> c" unfolding ec by (rule ilog2_bounds(1) [OF posc])
    finally show ?thesis by (simp add: f64_pos [OF x(1)])
  qed
qed

lemma f64_ge_float:
  assumes c: "0 < c" "c \<le> x" and d: "f64 c = c"
  shows "c \<le> f64 x"
proof -
  from c have posx: "0 < x" by simp
  define ex where "ex = max (ilog2 x) (- 1022)"
  define ec where "ec = max (ilog2 c) (- 1022)"
  have Ux: "ulp x = 2 powi (ex - 52)" using posx by (simp add: ulp_def ex_def)
  have Uc: "ulp c = 2 powi (ec - 52)" using c(1) by (simp add: ulp_def ec_def)
  have le: "ec \<le> ex" using ilog2_mono [OF c] by (simp add: ex_def ec_def)
  show ?thesis
  proof (cases "ex = ec")
    case True
    then have U: "ulp x = ulp c" by (simp add: Ux Uc)
    from double_grid [OF d c(1)] obtain C where C: "c = of_int C * ulp c" by blast
    have "of_int C * ulp c \<le> x" using c(2) by (subst C [symmetric])
    then have "of_int C \<le> x / ulp x"
      using ulp_pos [of c] by (simp add: U pos_le_divide_eq)
    then have "C \<le> rne (x / ulp x)" by (rule rne_ge)
    then have "(of_int C :: rat) \<le> of_int (rne (x / ulp x))" by (simp only: of_int_le_iff)
    then have "of_int C * ulp x \<le> of_int (rne (x / ulp x)) * ulp x"
      using ulp_pos [of x] by (simp only: mult_le_cancel_right_pos)
    then show ?thesis using C by (simp add: f64_pos [OF posx] U)
  next
    case False
    with le have lt: "ec + 1 \<le> ex" by simp
    then have "ex \<noteq> - 1022" by (simp add: ec_def)
    then have ex: "ex = ilog2 x" by (simp add: ex_def max_def split: if_splits)
    have "ilog2 c + 1 \<le> ec + 1" by (simp add: ec_def)
    then have "(2::rat) powi (ilog2 c + 1) \<le> 2 powi (ec + 1)"
      by (intro power_int_increasing) simp_all
    with ilog2_bounds(2) [OF c(1)] have "c \<le> 2 powi (ec + 1)" by simp
    also have "\<dots> \<le> 2 powi ex" using lt by (intro power_int_increasing) simp_all
    finally have cx: "c \<le> 2 powi ex" .
    have "2 powi ex / 2 powi (ex - 52) \<le> x / ulp x"
      unfolding Ux ex using ilog2_bounds(1) [OF posx] by (simp add: divide_right_mono)
    moreover have "(2::rat) powi ex / 2 powi (ex - 52) = 2 powi 52"
      by (simp add: power_int_diff [symmetric])
    ultimately have "of_int (2 ^ 52) \<le> x / ulp x" by simp
    then have "2 ^ 52 \<le> rne (x / ulp x)" by (rule rne_ge)
    then have "(of_int (2 ^ 52) :: rat) \<le> of_int (rne (x / ulp x))"
      by (simp only: of_int_le_iff)
    then have "of_int (2 ^ 52) * ulp x \<le> of_int (rne (x / ulp x)) * ulp x"
      using ulp_pos [of x] by (simp only: mult_le_cancel_right_pos)
    moreover have "of_int (2 ^ 52) * ulp x = 2 powi ex"
    proof -
      have "(2::rat) powi ex = 2 powi (52 + (ex - 52))" by simp
      also have "\<dots> = 2 powi 52 * 2 powi (ex - 52)" by (rule power_int_add) simp
      finally show ?thesis by (simp add: Ux)
    qed
    ultimately have "2 powi ex \<le> f64 x" by (simp add: f64_pos [OF posx])
    with cx show ?thesis by simp
  qed
qed

text \<open>A multiple of a power of two with at most 53 significant bits is a float64.\<close>

lemma f64_dyadic:
  assumes K: "0 < K" "K < 2 ^ 53" and j: "j \<le> 1022"
  shows "f64 (of_int K / 2 ^ j) = of_int K / 2 ^ j"
proof -
  define x :: rat where "x = of_int K / 2 ^ j"
  define e where "e = ilog2 x"
  have pos: "0 < x" using K(1) by (simp add: x_def)
  note b = ilog2_bounds [OF pos, folded e_def]
  have "(1::rat) \<le> of_int K" using K(1) by simp
  then have "1 / 2 ^ j \<le> x" by (simp add: x_def divide_right_mono)
  then have lo: "2 powi (- int j) \<le> x" by (simp add: power_int_minus_divide)
  have "(of_int K :: rat) < of_int (2 ^ 53)" using K(2) by (simp only: of_int_less_iff)
  then have "x < 2 ^ 53 / 2 ^ j" by (simp add: x_def divide_strict_right_mono)
  also have "(2::rat) ^ 53 / 2 ^ j = 2 powi (53 - int j)"
    by (simp add: power_int_diff)
  finally have hi: "x < 2 powi (53 - int j)" .
  have e1: "- int j \<le> e"
  proof (rule ccontr)
    assume "\<not> - int j \<le> e"
    then have "e + 1 \<le> - int j" by simp
    then have "(2::rat) powi (e + 1) \<le> 2 powi (- int j)"
      by (intro power_int_increasing) simp_all
    with b(2) lo show False by simp
  qed
  have e2: "e \<le> 52 - int j"
  proof (rule ccontr)
    assume "\<not> e \<le> 52 - int j"
    then have "53 - int j \<le> e" by simp
    then have "(2::rat) powi (53 - int j) \<le> 2 powi e"
      by (intro power_int_increasing) simp_all
    with b(1) hi show False by simp
  qed
  define t where "t = nat (52 - int j - e)"
  have t: "int t = 52 - int j - e" using e2 by (simp add: t_def)
  have U: "ulp x = 2 powi (e - 52)"
    using pos e1 j by (simp add: ulp_def e_def)
  have s: "(2::rat) powi (- int j) = 2 ^ t * 2 powi (e - 52)"
  proof -
    have "- int j = int t + (e - 52)" using t by simp
    then have "(2::rat) powi (- int j) = 2 powi (int t + (e - 52))" by (simp only:)
    also have "\<dots> = 2 powi int t * 2 powi (e - 52)" by (rule power_int_add) simp
    finally show ?thesis by simp
  qed
  have x': "x = of_int (K * 2 ^ t) * 2 powi (e - 52)"
  proof -
    have "x = of_int K * 2 powi (- int j)" by (simp add: x_def power_int_minus_divide)
    also have "\<dots> = of_int K * (2 ^ t * 2 powi (e - 52))" by (simp only: s)
    finally show ?thesis by simp
  qed
  have "x / ulp x = of_int (K * 2 ^ t)"
    unfolding U by (subst x') simp
  then have "rne (x / ulp x) = K * 2 ^ t" by (simp only: rne_of_int)
  then have "f64 x = of_int (K * 2 ^ t) * 2 powi (e - 52)"
    by (simp add: f64_pos [OF pos] U)
  also have "\<dots> = x" by (rule x' [symmetric])
  finally show ?thesis by (simp add: x_def)
qed

lemma f64_of_int:
  assumes "0 \<le> k" "k < 2 ^ 53"
  shows "f64 (of_int k) = of_int k"
proof (cases "k = 0")
  case True
  then show ?thesis by (simp add: f64_def)
next
  case False
  with assms have "0 < k" by simp
  from f64_dyadic [OF this assms(2), of 0] show ?thesis by simp
qed

lemma go_int_nonneg: "0 \<le> x \<Longrightarrow> 0 \<le> go_int x"
  by (simp add: go_int_def)

lemma sdiv_nonneg: "0 \<le> (a::int) \<Longrightarrow> 0 < b \<Longrightarrow> a sdiv b = a div b"
  by (simp add: signed_divide_int_def sgn_if)

lemma smod_nonneg: "0 \<le> (a::int) \<Longrightarrow> 0 < b \<Longrightarrow> a smod b = a mod b"
  by (simp add: signed_modulo_int_def sgn_if)

lemma Minutes_nonneg: "0 \<le> Minutes d" if "0 \<le> d"
proof -
  have a: "0 \<le> d sdiv NsPerMinute"
    using that by (simp add: sdiv_nonneg NsPerMinute_def pos_imp_zdiv_nonneg_iff)
  have b: "0 \<le> d smod NsPerMinute" using that by (simp add: smod_nonneg NsPerMinute_def)
  have c: "(0::rat) < of_int NsPerMinute" by (simp add: NsPerMinute_def)
  show ?thesis
    unfolding Minutes_def Let_def
    using a b c by (intro f64_nonneg add_nonneg_nonneg divide_nonneg_nonneg) simp_all
qed

lemma f64_le_float0:
  assumes "0 \<le> x" "x \<le> c" "f64 c = c"
  shows "f64 x \<le> c"
proof (cases "x = 0")
  case True
  with assms show ?thesis by (simp add: f64_def)
next
  case False
  with assms(1) have "0 < x" by simp
  then show ?thesis using assms(2,3) by (rule f64_le_float)
qed

text \<open>
  For a duration that is not negative and shorter than \<open>2^17\<close> minutes (91 days),
  \<^verbatim>\<open>Minutes\<close> lies between the whole minutes of the duration and the next whole
  number, so the conversion to \<^verbatim>\<open>int\<close> gives the whole minutes.
\<close>

lemma fraction_of_minute:
  assumes "0 \<le> ns" "ns < NsPerMinute"
  shows "0 \<le> f64 (f64 (of_int ns) / of_int NsPerMinute)"
    and "f64 (f64 (of_int ns) / of_int NsPerMinute) \<le> (2 ^ 36 - 1) / 2 ^ 36"
proof -
  have "ns < 2 ^ 53" using assms(2) by (simp add: NsPerMinute_def)
  then have n: "f64 (of_int ns) = of_int ns" using assms(1) by (intro f64_of_int)
  have c: "f64 (of_int (2 ^ 36 - 1) / 2 ^ 36) = of_int (2 ^ 36 - 1) / 2 ^ 36"
    by (rule f64_dyadic) simp_all
  have q0: "(0::rat) \<le> of_int ns / of_int NsPerMinute"
    using assms(1) by (simp add: NsPerMinute_def)
  have "ns \<le> NsPerMinute - 1" using assms(2) by simp
  then have "(of_int ns :: rat) \<le> of_int (NsPerMinute - 1)" by (simp only: of_int_le_iff)
  then have "(of_int ns :: rat) / of_int NsPerMinute \<le> of_int (NsPerMinute - 1) / of_int NsPerMinute"
    by (intro divide_right_mono) (simp_all add: NsPerMinute_def)
  also have "\<dots> \<le> of_int (2 ^ 36 - 1) / 2 ^ 36" by (simp add: NsPerMinute_def)
  finally have q1: "(of_int ns :: rat) / of_int NsPerMinute \<le> of_int (2 ^ 36 - 1) / 2 ^ 36" .
  show "0 \<le> f64 (f64 (of_int ns) / of_int NsPerMinute)"
    unfolding n using q0 by (rule f64_nonneg)
  have "f64 (of_int ns / of_int NsPerMinute) \<le> of_int (2 ^ 36 - 1) / 2 ^ 36"
    using q0 q1 c by (rule f64_le_float0)
  then show "f64 (f64 (of_int ns) / of_int NsPerMinute) \<le> (2 ^ 36 - 1) / 2 ^ 36"
    unfolding n by simp
qed

lemma Minutes_whole:
  assumes d: "0 \<le> d" and small: "d div NsPerMinute < 2 ^ 17"
  shows "\<lfloor>Minutes d\<rfloor> = d div NsPerMinute"
proof -
  define mn where "mn = d div NsPerMinute"
  define ns where "ns = d mod NsPerMinute"
  define fr where "fr = f64 (f64 (of_int ns) / of_int NsPerMinute)"
  have M: "0 < NsPerMinute" by (simp add: NsPerMinute_def)
  have mn: "0 \<le> mn" "mn < 2 ^ 17" using d small M by (simp_all add: mn_def pos_imp_zdiv_nonneg_iff)
  have ns: "0 \<le> ns" "ns < NsPerMinute" using M by (simp_all add: ns_def)
  note fr = fraction_of_minute [OF ns, folded fr_def]
  have "mn < 2 ^ 53" using mn(2) by simp
  then have m: "f64 (of_int mn) = of_int mn" using mn(1) by (intro f64_of_int)
  have e: "Minutes d = f64 (of_int mn + fr)"
    using d M by (simp add: Minutes_def Let_def sdiv_nonneg smod_nonneg mn_def ns_def fr_def m [unfolded mn_def])
  have lo: "of_int mn \<le> f64 (of_int mn + fr)"
  proof (cases "mn = 0")
    case True
    then show ?thesis using fr(1) by (simp add: f64_nonneg)
  next
    case False
    with mn(1) have "(0::rat) < of_int mn" by simp
    moreover have "(of_int mn :: rat) \<le> of_int mn + fr" using fr(1) by simp
    ultimately show ?thesis using m by (rule f64_ge_float)
  qed
  have k: "0 < mn * 2 ^ 36 + (2 ^ 36 - 1)" "mn * 2 ^ 36 + (2 ^ 36 - 1) < 2 ^ 53"
    using mn by simp_all
  have c: "f64 (of_int (mn * 2 ^ 36 + (2 ^ 36 - 1)) / 2 ^ 36) =
      of_int (mn * 2 ^ 36 + (2 ^ 36 - 1)) / 2 ^ 36"
    using k by (rule f64_dyadic) simp
  have c': "(of_int (mn * 2 ^ 36 + (2 ^ 36 - 1)) :: rat) / 2 ^ 36 = of_int mn + (2 ^ 36 - 1) / 2 ^ 36"
    by (simp add: add_divide_distrib)
  have "f64 (of_int mn + fr) \<le> of_int mn + (2 ^ 36 - 1) / 2 ^ 36"
  proof (rule f64_le_float0)
    show "0 \<le> of_int mn + fr" using mn(1) fr(1) by simp
    show "of_int mn + fr \<le> of_int mn + (2 ^ 36 - 1) / 2 ^ 36" using fr(2) by simp
    show "f64 (of_int mn + (2 ^ 36 - 1) / 2 ^ 36) = of_int mn + (2 ^ 36 - 1) / 2 ^ 36"
      using c unfolding c' .
  qed
  then have hi: "f64 (of_int mn + fr) < of_int mn + 1" by simp
  from lo hi have "\<lfloor>f64 (of_int mn + fr)\<rfloor> = mn" by (simp add: floor_eq_iff)
  then show ?thesis by (simp add: e mn_def)
qed

lemma go_int_Minutes:
  assumes "0 \<le> d" and "d div NsPerMinute < 2 ^ 17"
  shows "go_int (Minutes d) = d div NsPerMinute"
  using Minutes_whole [OF assms] Minutes_nonneg [OF assms(1)] by (simp add: go_int_def)

lemma roundToTenMinutes_nonneg_eq:
  "0 \<le> n \<Longrightarrow> roundToTenMinutes n = (n + 5) div 10 * 10"
  by (simp add: roundToTenMinutes_def sdiv_nonneg)

lemma roundToTenMinutes_ge0: "0 \<le> n \<Longrightarrow> 0 \<le> roundToTenMinutes n"
  by (simp add: roundToTenMinutes_nonneg_eq pos_imp_zdiv_nonneg_iff)

lemma tens_mod_60: "(k::int) * 10 mod 60 \<in> {0, 10, 20, 30, 40, 50}"
proof -
  define j where "j = k mod 6"
  have "k * 10 mod 60 = 10 * j"
    using mult_mod_right [of 10 k 6] by (simp add: j_def mult.commute)
  moreover have "0 \<le> j" "j < 6" by (simp_all add: j_def)
  then have "j = 0 \<or> j = 1 \<or> j = 2 \<or> j = 3 \<or> j = 4 \<or> j = 5" by arith
  ultimately show ?thesis by auto
qed

lemma split_minutes:
  fixes n :: int
  shows "(n + 5) div 10 = 6 * (n div 60) + (n mod 60 + 5) div 10"
proof -
  have e: "n + 5 = (n mod 60 + 5) + (6 * (n div 60)) * 10" by (simp add: algebra_simps)
  have "((n mod 60 + 5) + (6 * (n div 60)) * 10) div 10 = 6 * (n div 60) + (n mod 60 + 5) div 10"
    by (rule div_mult_self1) simp
  with e show ?thesis by (simp only:)
qed

lemma carry_hour:
  fixes n :: int
  assumes "0 \<le> n" "55 \<le> n mod 60"
  shows "(n + 5) div 10 * 10 div 60 = n div 60 + 1" "(n + 5) div 10 * 10 mod 60 = 0"
proof -
  have "n mod 60 < 60" by simp
  with assms have "(n mod 60 + 5) div 10 = 6" by simp
  then have k: "(n + 5) div 10 * 10 = (n div 60 + 1) * 60"
    using split_minutes [of n] by simp
  show "(n + 5) div 10 * 10 div 60 = n div 60 + 1" unfolding k by simp
  show "(n + 5) div 10 * 10 mod 60 = 0" unfolding k by simp
qed

lemma no_carry_hour:
  fixes n :: int
  assumes "0 \<le> n" "n mod 60 < 55"
  shows "(n + 5) div 10 * 10 div 60 = n div 60"
    "(n + 5) div 10 * 10 mod 60 = (n mod 60 + 5) div 10 * 10"
proof -
  define c where "c = (n mod 60 + 5) div 10"
  have "0 \<le> n mod 60" by simp
  with assms have c: "0 \<le> c" "c * 10 < 60" by (simp_all add: c_def)
  have k: "(n + 5) div 10 * 10 = c * 10 + (n div 60) * 60"
    using split_minutes [of n] by (simp add: c_def)
  show "(n + 5) div 10 * 10 div 60 = n div 60" unfolding k using c by simp
  show "(n + 5) div 10 * 10 mod 60 = (n mod 60 + 5) div 10 * 10"
    unfolding k using c by (simp add: c_def)
qed

text \<open>What a valid result of calculateTimeUntilReset is made of.\<close>

lemma calculateTimeUntilReset_valid:
  assumes "calculateTimeUntilReset now resetTime = (hours, minutes, True)"
  shows "0 \<le> go_int (Minutes (Until now resetTime))"
    and "hours = roundToTenMinutes (go_int (Minutes (Until now resetTime))) div 60"
    and "minutes = roundToTenMinutes (go_int (Minutes (Until now resetTime))) mod 60"
proof -
  from assms have d: "0 \<le> Until now resetTime"
    by (auto simp: calculateTimeUntilReset_def Let_def split: if_splits)
  then show n: "0 \<le> go_int (Minutes (Until now resetTime))"
    by (intro go_int_nonneg Minutes_nonneg)
  from assms d have
    "hours = roundToTenMinutes (go_int (Minutes (Until now resetTime))) sdiv 60"
    "minutes = roundToTenMinutes (go_int (Minutes (Until now resetTime))) smod 60"
    by (auto simp: calculateTimeUntilReset_def Let_def split: if_splits)
  with roundToTenMinutes_ge0 [OF n]
  show "hours = roundToTenMinutes (go_int (Minutes (Until now resetTime))) div 60"
    and "minutes = roundToTenMinutes (go_int (Minutes (Until now resetTime))) mod 60"
    by (simp_all add: sdiv_nonneg smod_nonneg)
qed

lemma rounded_clock:
  assumes "0 \<le> mi" "mi < 60"
  shows "(if 60 \<le> roundToTenMinutes mi then 0 else roundToTenMinutes mi) \<in> {0, 10, 20, 30, 40, 50}"
    and "60 \<le> roundToTenMinutes mi \<longleftrightarrow> 55 \<le> mi"
proof -
  have r: "roundToTenMinutes mi = (mi + 5) div 10 * 10"
    using assms by (simp add: roundToTenMinutes_nonneg_eq)
  show b: "60 \<le> roundToTenMinutes mi \<longleftrightarrow> 55 \<le> mi"
    unfolding r using assms by auto
  have "roundToTenMinutes mi mod 60 \<in> {0, 10, 20, 30, 40, 50}"
    unfolding r by (rule tens_mod_60)
  moreover have "0 \<le> roundToTenMinutes mi" using assms by (simp add: roundToTenMinutes_ge0)
  ultimately show "(if 60 \<le> roundToTenMinutes mi then 0 else roundToTenMinutes mi) \<in> {0, 10, 20, 30, 40, 50}"
    by (auto simp: mod_pos_pos_trivial)
qed

lemma tier_strings_distinct: "green \<noteq> yellow \<and> green \<noteq> red \<and> yellow \<noteq> red"
  by (simp add: green_def yellow_def red_def)

section \<open>Indicator tier\<close>

text \<open>
  Claim C6. For every utilization value the indicator is the low tier (green) below 50,
  the mid tier (yellow) from 50 up to but not including 80, and the high tier (red) from
  80 on; the three indicators are different strings. The tier is taken from the value
  itself, not from the rounded percent: 79.5 shows as 80 percent in the mid tier.
\<close>

theorem getColorIndicator_tiers:
  "(u < 50 \<longrightarrow> getColorIndicator u = green) \<and>
   (50 \<le> u \<and> u < 80 \<longrightarrow> getColorIndicator u = yellow) \<and>
   (80 \<le> u \<longrightarrow> getColorIndicator u = red) \<and>
   green \<noteq> yellow \<and> green \<noteq> red \<and> yellow \<noteq> red"
  using tier_strings_distinct by (simp add: getColorIndicator_def)

theorem getColorIndicator_tiers_witness:
  "getColorIndicator (499 / 10) = green \<and> getColorIndicator 50 = yellow \<and>
   getColorIndicator (799 / 10) = yellow \<and> getColorIndicator 80 = red \<and>
   getColorIndicator 100 = red \<and> green \<noteq> yellow \<and> green \<noteq> red \<and> yellow \<noteq> red"
  using getColorIndicator_tiers [of "499 / 10"] getColorIndicator_tiers [of 50]
    getColorIndicator_tiers [of "799 / 10"] getColorIndicator_tiers [of 80]
    getColorIndicator_tiers [of 100]
  by simp

section \<open>Whole percent\<close>

text \<open>
  Claim C7. The displayed whole percent is meant to be the utilization rounded half up.
  \<open>roundUtilization\<close> adds one half in float64 and truncates. At the largest float64
  below one half, \<open>1/2 - 2^-54\<close> (written 0.49999999999999994), the sum \<open>1 - 2^-54\<close> is
  not a float64: it lies halfway between \<open>1 - 2^-53\<close> and \<open>1\<close> and rounds to \<open>1\<close>, so
  the function returns 1 where rounding half up gives 0.
\<close>

theorem roundUtilization_below_half:
  "f64 (1 / 2 - 1 / 2 ^ 54) = 1 / 2 - 1 / 2 ^ 54 \<and>
   (0::rat) \<le> 1 / 2 - 1 / 2 ^ 54 \<and> (1::rat) / 2 - 1 / 2 ^ 54 < 100 \<and>
   roundUtilization (1 / 2 - 1 / 2 ^ 54) = 1 \<and>
   round_half_up (1 / 2 - 1 / 2 ^ 54) = 0"
  by code_simp

text \<open>The two examples of the specification, at the float64 values of 49.5 and 79.4.\<close>

lemma roundUtilization_examples:
  "roundUtilization (f64 (495 / 10)) = 50 \<and> roundUtilization (f64 (794 / 10)) = 79 \<and>
   round_half_up (f64 (495 / 10)) = 50 \<and> round_half_up (f64 (794 / 10)) = 79"
  by code_simp

lemma below_half_gap:
  assumes d: "f64 u = u" and u: "0 \<le> u" "u < 1 / 2" and n: "u \<noteq> 1 / 2 - 1 / 2 ^ 54"
  shows "u < 1 / 2 - 1 / 2 ^ 54"
proof (cases "u < 1 / 4")
  case True
  then show ?thesis by simp
next
  case False
  then have q: "1 / 4 \<le> u" by simp
  then have pos: "0 < u" by simp
  have "ulp u = 2 powi (- 2 - 52)"
    using pos q u(2) by (intro ulp_of) (simp_all add: power_int_minus_divide)
  then have U: "ulp u = 1 / 2 ^ 54" by (simp add: power_int_minus_divide)
  from double_grid [OF d pos] obtain M where M: "u = of_int M / 2 ^ 54" by (auto simp: U)
  from u(2) have "(of_int M :: rat) < 2 ^ 53" by (simp add: M field_simps)
  then have "(of_int M :: rat) < of_int (2 ^ 53)" by simp
  then have a: "M < 2 ^ 53" by (simp only: of_int_less_iff)
  from n have "M \<noteq> 2 ^ 53 - 1" by (auto simp: M field_simps)
  with a have "M \<le> 2 ^ 53 - 2" by simp
  then have "(of_int M :: rat) \<le> of_int (2 ^ 53 - 2)" by (simp only: of_int_le_iff)
  then show ?thesis by (simp add: M field_simps)
qed

lemma roundUtilization_below_one_half:
  assumes d: "f64 u = u" and u: "0 \<le> u" "u < 1 / 2" and n: "u \<noteq> 1 / 2 - 1 / 2 ^ 54"
  shows "roundUtilization u = round_half_up u"
proof -
  define x where "x = u + 1 / 2"
  define r where "r = rne (x * 2 ^ 53)"
  have g: "u < 1 / 2 - 1 / 2 ^ 54" by (rule below_half_gap [OF d u n])
  have pos: "0 < x" and x: "1 / 2 \<le> x" "x < 1" using u by (simp_all add: x_def)
  have "ulp x = 2 powi (- 1 - 52)"
    using pos x by (intro ulp_of) (simp_all add: power_int_minus_divide)
  then have U: "ulp x = 1 / 2 ^ 53" by (simp add: power_int_minus_divide)
  have f: "f64 x = of_int r / 2 ^ 53"
    using f64_pos [OF pos] by (simp add: U r_def)
  have "of_int (2 ^ 52) \<le> x * 2 ^ 53" using x by simp
  then have "2 ^ 52 \<le> r" unfolding r_def by (rule rne_ge)
  then have "(of_int (2 ^ 52) :: rat) \<le> of_int r" by (simp only: of_int_le_iff)
  then have lo: "1 / 2 \<le> f64 x" unfolding f by (simp add: field_simps)
  have "x * 2 ^ 53 < of_int (2 ^ 53) - 1 / 2" using g by (simp add: x_def field_simps)
  then have "r < 2 ^ 53" unfolding r_def by (rule rne_less)
  then have "(of_int r :: rat) < of_int (2 ^ 53)" by (simp only: of_int_less_iff)
  then have hi: "f64 x < 1" unfolding f by (simp add: field_simps)
  from lo hi have "\<lfloor>f64 x\<rfloor> = 0" by (simp add: floor_eq_iff)
  moreover have "\<lfloor>x\<rfloor> = 0" using x by (simp add: floor_eq_iff)
  ultimately show ?thesis
    using lo by (simp add: roundUtilization_def round_half_up_def go_int_def x_def)
qed

lemma exponent_range:
  assumes "1 / 2 \<le> u" "u < 100"
  shows "- 1 \<le> ilog2 u" and "ilog2 u \<le> 6"
proof -
  from assms have pos: "0 < u" by simp
  note b = ilog2_bounds [OF pos]
  show "- 1 \<le> ilog2 u"
  proof (rule ccontr)
    assume "\<not> - 1 \<le> ilog2 u"
    then have "ilog2 u + 1 \<le> - 1" by simp
    then have "(2::rat) powi (ilog2 u + 1) \<le> 2 powi (- 1)"
      by (intro power_int_increasing) simp_all
    with b(2) assms(1) show False by (simp add: power_int_minus_divide)
  qed
  show "ilog2 u \<le> 6"
  proof (rule ccontr)
    assume "\<not> ilog2 u \<le> 6"
    then have "7 \<le> ilog2 u" by simp
    then have "(2::rat) powi 7 \<le> 2 powi ilog2 u"
      by (intro power_int_increasing) simp_all
    with b(1) assms(2) show False by simp
  qed
qed

lemma same_binade_exact:
  assumes d: "f64 u = u" and u: "1 / 2 \<le> u" "u < 100"
    and x: "u + 1 / 2 < 2 powi (ilog2 u + 1)"
  shows "f64 (u + 1 / 2) = u + 1 / 2"
proof -
  define a where "a = ilog2 u"
  define s where "s = nat (52 - a)"
  from u have pos: "0 < u" by simp
  note b = ilog2_bounds [OF pos, folded a_def]
  note r = exponent_range [OF u, folded a_def]
  have s: "1 \<le> s" "a - 52 = - int s" using r by (simp_all add: s_def)
  have Uu: "ulp u = 1 / 2 ^ s"
    using r by (simp add: ulp_of [OF pos b] s power_int_minus_divide)
  from double_grid [OF d pos] obtain M where M: "u = of_int M / 2 ^ s" by (auto simp: Uu)
  have posx: "0 < u + 1 / 2" using pos by simp
  have "ulp (u + 1 / 2) = 2 powi (a - 52)"
    using posx b(1) x r by (intro ulp_of) (simp_all add: a_def)
  then have Ux: "ulp (u + 1 / 2) = 1 / 2 ^ s" by (simp add: s power_int_minus_divide)
  have h: "(1::rat) / 2 = 2 ^ (s - 1) / 2 ^ s"
    using s(1) by (simp add: power_diff)
  have "(u + 1 / 2) / ulp (u + 1 / 2) = of_int (M + 2 ^ (s - 1))"
    unfolding Ux by (subst h) (simp add: M add_divide_distrib [symmetric])
  then have "rne ((u + 1 / 2) / ulp (u + 1 / 2)) = M + 2 ^ (s - 1)"
    by (simp only: rne_of_int)
  then have "f64 (u + 1 / 2) = of_int (M + 2 ^ (s - 1)) / 2 ^ s"
    using f64_pos [OF posx] by (simp add: Ux)
  also have "\<dots> = u + 1 / 2"
    by (subst h) (simp add: M add_divide_distrib)
  finally show ?thesis .
qed

lemma next_binade_floor:
  assumes u: "1 / 2 \<le> u" "u < 100"
    and x: "2 powi (ilog2 u + 1) \<le> u + 1 / 2"
  shows "\<lfloor>f64 (u + 1 / 2)\<rfloor> = \<lfloor>u + 1 / 2\<rfloor>"
proof -
  define a where "a = ilog2 u"
  define p :: int where "p = 2 ^ nat (a + 1)"
  define y where "y = u + 1 / 2"
  from u have pos: "0 < u" by simp
  note b = ilog2_bounds [OF pos, folded a_def]
  note r = exponent_range [OF u, folded a_def]
  have P: "(2::rat) powi (a + 1) = of_int p" using r by (simp add: p_def power_int_def)
  have p1: "1 \<le> p" by (simp add: p_def)
  have y: "of_int p \<le> y" "y < of_int p + 1 / 2"
    using x b(2) by (simp_all add: y_def a_def [symmetric] P)
  have posy: "0 < y" using pos by (simp add: y_def)
  have "(2::rat) powi (a + 1 + 1) = 2 * 2 powi (a + 1)"
    by (simp add: power_int_add)
  then have "y < 2 powi (a + 1 + 1)"
    using y(2) p1 by (simp add: P)
  then have "ulp y = 2 powi (a + 1 - 52)"
    using posy y(1) r by (intro ulp_of) (simp_all add: P)
  then have U: "ulp y = 2 powi (a - 51)" by (simp add: algebra_simps)
  have "(2::rat) powi (a - 51) \<le> 2 powi (- 45)"
    using r by (intro power_int_increasing) simp_all
  then have small: "ulp y \<le> 1 / 4" by (simp add: U power_int_minus_divide)
  have "of_int p / ulp y = 2 powi (a + 1) / 2 powi (a - 51)" by (simp add: U P)
  also have "\<dots> = 2 powi 52" by (simp add: power_int_diff [symmetric])
  finally have g: "of_int p / ulp y = of_int (2 ^ 52)" by simp
  have "of_int p / ulp y \<le> y / ulp y"
    using y(1) ulp_pos [of y] by (simp add: divide_right_mono)
  then have "2 ^ 52 \<le> rne (y / ulp y)" unfolding g by (rule rne_ge)
  then have "(of_int (2 ^ 52) :: rat) \<le> of_int (rne (y / ulp y))"
    by (simp only: of_int_le_iff)
  then have "of_int (2 ^ 52) * ulp y \<le> of_int (rne (y / ulp y)) * ulp y"
    using ulp_pos [of y] by (simp only: mult_le_cancel_right_pos)
  moreover have "of_int (2 ^ 52) * ulp y = of_int p"
    using g ulp_pos [of y] by (simp add: field_simps)
  ultimately have lo: "of_int p \<le> f64 y" using f64_pos [OF posy] by simp
  have "of_int (rne (y / ulp y)) * ulp y \<le> (y / ulp y + 1) * ulp y"
    using rne_upper [of "y / ulp y"] ulp_pos [of y] by (simp only: mult_le_cancel_right_pos)
  also have "\<dots> = y + ulp y" using ulp_pos [of y] by (simp add: field_simps)
  finally have "f64 y \<le> y + ulp y" using f64_pos [OF posy] by simp
  with y(2) small have hi: "f64 y < of_int p + 1" by simp
  from lo hi have "\<lfloor>f64 y\<rfloor> = p" by (simp add: floor_eq_iff)
  moreover from y have "\<lfloor>y\<rfloor> = p" by (simp add: floor_eq_iff)
  ultimately show ?thesis by (simp add: y_def)
qed

lemma roundUtilization_from_one_half:
  assumes d: "f64 u = u" and u: "1 / 2 \<le> u" "u < 100"
  shows "roundUtilization u = round_half_up u"
proof (cases "u + 1 / 2 < 2 powi (ilog2 u + 1)")
  case True
  from same_binade_exact [OF d u True] u show ?thesis
    by (simp add: roundUtilization_def round_half_up_def go_int_def)
next
  case False
  then have x: "2 powi (ilog2 u + 1) \<le> u + 1 / 2" by simp
  have "0 \<le> f64 (u + 1 / 2)"
    using u f64_pos [of "u + 1 / 2"] ulp_pos [of "u + 1 / 2"] rne_ge [of 0 "(u + 1 / 2) / ulp (u + 1 / 2)"]
    by simp
  with next_binade_floor [OF u x] show ?thesis
    by (simp add: roundUtilization_def round_half_up_def go_int_def)
qed

text \<open>
  At every other float64 from 0 up to but not including 100 the function does round half
  up: the sum with one half is either exact or, when it crosses into the next binade,
  off by less than the distance to the next whole number.
\<close>

theorem roundUtilization_round_half_up:
  assumes "f64 u = u" and "0 \<le> u" and "u < 100" and "u \<noteq> 1 / 2 - 1 / 2 ^ 54"
  shows "roundUtilization u = round_half_up u"
proof (cases "u < 1 / 2")
  case True
  with assms show ?thesis by (intro roundUtilization_below_one_half)
next
  case False
  with assms show ?thesis by (intro roundUtilization_from_one_half) simp_all
qed

section \<open>Minutes rounded to ten\<close>

text \<open>
  \<open>roundToTenMinutes\<close> gives the multiple of ten nearest to a count that is not
  negative, a count that ends in 5 going up.
\<close>

lemma roundToTenMinutes_nearest:
  assumes "0 \<le> m"
  shows "roundToTenMinutes m mod 10 = 0" and "m - 5 < roundToTenMinutes m"
    and "roundToTenMinutes m \<le> m + 5"
proof -
  have r: "roundToTenMinutes m = (m + 5) div 10 * 10"
    using assms by (rule roundToTenMinutes_nonneg_eq)
  have e: "(m + 5) div 10 * 10 + (m + 5) mod 10 = m + 5" by simp
  have b: "0 \<le> (m + 5) mod 10" "(m + 5) mod 10 < 10" by simp_all
  show "roundToTenMinutes m mod 10 = 0" unfolding r by simp
  show "m - 5 < roundToTenMinutes m" unfolding r using e b by linarith
  show "roundToTenMinutes m \<le> m + 5" unfolding r using e b by linarith
qed

text \<open>
  The time to the reset. With \<open>n\<close> the minutes of the offset as the code computes them
  (the whole minutes of the offset, for any offset shorter than \<open>2^17\<close> minutes), hours
  and minutes together are \<open>n\<close> rounded to the nearest ten, and the minutes are one of
  0, 10, 20, 30, 40, 50: when the minute of the hour is 55 or more the hour count goes up
  by one and the minutes are 0.
\<close>

lemma offset_minutes_never_sixty:
  assumes "calculateTimeUntilReset now resetTime = (hours, minutes, True)"
    and "n = go_int (Minutes (Until now resetTime))"
  shows "0 \<le> n \<and>
     (Until now resetTime div NsPerMinute < 2 ^ 17 \<longrightarrow>
        n = Until now resetTime div NsPerMinute) \<and>
     hours * 60 + minutes = roundToTenMinutes n \<and>
     roundToTenMinutes n mod 10 = 0 \<and> n - 5 < roundToTenMinutes n \<and>
     roundToTenMinutes n \<le> n + 5 \<and>
     minutes \<in> {0, 10, 20, 30, 40, 50} \<and>
     (55 \<le> n mod 60 \<longrightarrow> hours = n div 60 + 1 \<and> minutes = 0) \<and>
     (n mod 60 < 55 \<longrightarrow> hours = n div 60 \<and> minutes = roundToTenMinutes (n mod 60))"
proof -
  note v = calculateTimeUntilReset_valid [OF assms(1), folded assms(2)]
  have n: "0 \<le> n" by (rule v(1))
  from assms(1) have "0 \<le> Until now resetTime"
    by (auto simp: calculateTimeUntilReset_def Let_def split: if_splits)
  then have w: "Until now resetTime div NsPerMinute < 2 ^ 17 \<longrightarrow>
        n = Until now resetTime div NsPerMinute"
    unfolding assms(2) by (simp add: go_int_Minutes)
  have s: "hours * 60 + minutes = roundToTenMinutes n"
    unfolding v(2) v(3) by simp
  note k = roundToTenMinutes_nearest [OF n]
  have r: "roundToTenMinutes n = (n + 5) div 10 * 10"
    using n by (rule roundToTenMinutes_nonneg_eq)
  have m: "minutes \<in> {0, 10, 20, 30, 40, 50}"
    unfolding v(3) r by (rule tens_mod_60)
  have c: "55 \<le> n mod 60 \<longrightarrow> hours = n div 60 + 1 \<and> minutes = 0"
    unfolding v(2) v(3) r using carry_hour [OF n] by simp
  have "0 \<le> n mod 60" by simp
  then have "roundToTenMinutes (n mod 60) = (n mod 60 + 5) div 10 * 10"
    by (rule roundToTenMinutes_nonneg_eq)
  then have d: "n mod 60 < 55 \<longrightarrow> hours = n div 60 \<and> minutes = roundToTenMinutes (n mod 60)"
    unfolding v(2) v(3) r using no_carry_hour [OF n] by simp
  from n w s k m c d show ?thesis by blast
qed

text \<open>
  The clock time of the reset: the minute shown is one of 0, 10, 20, 30, 40, 50 as well,
  and 0 from minute 55 on.
\<close>

lemma formatResetTime_minute:
  assumes "0 \<le> Minute (loc t)" and "Minute (loc t) < 60"
  shows "\<exists>h m. formatResetTime loc t =
        fmt_0wd 4 (Year (loc t)) @ ''-'' @ fmt_0wd 2 (Month (loc t)) @ ''-'' @
        fmt_0wd 2 (Day (loc t)) @ '' '' @ fmt_0wd 2 h @ '':'' @ fmt_0wd 2 m \<and>
        m \<in> {0, 10, 20, 30, 40, 50} \<and>
        (55 \<le> Minute (loc t) \<longrightarrow> m = 0) \<and>
        (Minute (loc t) < 55 \<longrightarrow> h = Hour (loc t) \<and> m = roundToTenMinutes (Minute (loc t)))"
proof -
  let ?mi = "Minute (loc t)"
  let ?h = "if 60 \<le> roundToTenMinutes ?mi then (Hour (loc t) + 1) smod 24 else Hour (loc t)"
  let ?m = "if 60 \<le> roundToTenMinutes ?mi then 0 else roundToTenMinutes ?mi"
  have f: "formatResetTime loc t =
        fmt_0wd 4 (Year (loc t)) @ ''-'' @ fmt_0wd 2 (Month (loc t)) @ ''-'' @
        fmt_0wd 2 (Day (loc t)) @ '' '' @ fmt_0wd 2 ?h @ '':'' @ fmt_0wd 2 ?m"
    by (simp add: formatResetTime_def Let_def)
  note rc = rounded_clock [OF assms]
  have g: "?m \<in> {0, 10, 20, 30, 40, 50}" by (rule rc(1))
  have h1: "55 \<le> ?mi \<longrightarrow> ?m = 0" using rc(2) by simp
  have h2: "?mi < 55 \<longrightarrow> ?h = Hour (loc t) \<and> ?m = roundToTenMinutes ?mi"
    using rc(2) by simp
  from f g h1 h2 show ?thesis by blast
qed

text \<open>
  Claim C8. Rounding the minutes to ten never shows 60 minutes: when it reaches 60 the
  hour is to go up by one and the minutes are 0. The time to the reset does so, and
  \<open>formatResetTime\<close> does so within a day. In the last five minutes of a day it does
  not: the hour is taken modulo 24 and the year, month and day are those of the time
  before rounding, so a reset at 23:57 on 31 December is shown as 00:00 on 31 December,
  a day before the hour it was rounded to, while the same line says the reset is in
  1h 0m.
\<close>

theorem formatResetTime_misses_date_carry:
  "formatResetTime (\<lambda>t. \<lparr>Year = 2025, Month = 12, Day = 31, Hour = 23, Minute = 57\<rparr>)
     (1 + 57 * NsPerMinute) = ''2025-12-31 00:00'' \<and>
   calculateTimeUntilReset 1 (1 + 57 * NsPerMinute) = (1, 0, True) \<and>
   formatUsageWithReset (\<lambda>t. \<lparr>Year = 2025, Month = 12, Day = 31, Hour = 23, Minute = 57\<rparr>) 1
     (Some \<lparr>Utilization = 50, ResetsAt = ''r'', ResetsAtTime = 1 + 57 * NsPerMinute\<rparr>)
     ''5-Hour Session:'' =
     ''5-Hour Session: 50% (resets 2025-12-31 00:00, in 1h 0m)''"
  by code_simp

section \<open>No active session\<close>

lemma fmt_d_0: "fmt_d 0 = ''0''" by code_simp
lemma fmt_wd_3_0: "fmt_wd 3 0 = ''  0''" by code_simp

lemma calculateTimeUntilReset_zero:
  "IsZero t \<Longrightarrow> calculateTimeUntilReset now t = (0, 0, False)"
  by (simp add: calculateTimeUntilReset_def)

text \<open>
  Claim C9, as the code has it. A usage window whose utilization rounds to zero and
  which has no reset timestamp is rendered, in the menu, as its label followed by
  \<^verbatim>\<open>0% (no active session)\<close>, for every label and so for every window. On the
  console only the line of the 5-hour session carries the message; the lines of the two
  weekly windows end after the percent.
\<close>

theorem no_active_session:
  assumes "roundUtilization (Utilization l) = 0" and "IsZero (ResetsAtTime l)"
  shows "formatUsageWithReset loc now (Some l) label = label @ '' 0% (no active session)'' \<and>
     (FiveHour limits = Some l \<longrightarrow>
        displayUsageStats loc now limits ! 1 =
          ''5-Hour Session:    0%  (no active session)'' @ [CHR 0x0A]) \<and>
     (SevenDay limits = Some l \<longrightarrow>
        displayUsageStats loc now limits ! 2 = ''Weekly (All):    0%'' @ [CHR 0x0A]) \<and>
     (SevenDayOpus limits = Some l \<longrightarrow>
        displayUsageStats loc now limits ! 3 = ''Weekly (Opus):    0%'' @ [CHR 0x0A])"
  using assms
  by (simp add: formatUsageWithReset_def formatConsoleUsage_def displayUsageStats_def
      calculateTimeUntilReset_zero fmt_d_0 fmt_wd_3_0)

text \<open>
  The claim as stated is for every usage window. With all three windows at zero and
  without a reset timestamp, the console shows the two weekly windows as plain 0%.
\<close>

theorem weekly_console_lines_plain:
  "displayUsageStats (\<lambda>t. \<lparr>Year = 1, Month = 1, Day = 1, Hour = 0, Minute = 0\<rparr>) 5
     \<lparr>FiveHour = Some \<lparr>Utilization = 0, ResetsAt = [], ResetsAtTime = 0\<rparr>,
      SevenDay = Some \<lparr>Utilization = 0, ResetsAt = [], ResetsAtTime = 0\<rparr>,
      SevenDayOAuthApps = None,
      SevenDayOpus = Some \<lparr>Utilization = 0, ResetsAt = [], ResetsAtTime = 0\<rparr>,
      IguanaNecktie = None, LastUpdated = 5\<rparr> =
     [''=== Current Usage ==='' @ [CHR 0x0A],
      ''5-Hour Session:    0%  (no active session)'' @ [CHR 0x0A],
      ''Weekly (All):    0%'' @ [CHR 0x0A],
      ''Weekly (Opus):    0%'' @ [CHR 0x0A],
      [CHR 0x0A]]"
  by code_simp

theorem no_active_session_witness:
  "formatUsageWithReset (\<lambda>t. \<lparr>Year = 1, Month = 1, Day = 1, Hour = 0, Minute = 0\<rparr>) 5
     (Some \<lparr>Utilization = 0, ResetsAt = [], ResetsAtTime = 0\<rparr>) ''Weekly (All):'' =
     ''Weekly (All): 0% (no active session)'' \<and>
   displayUsageStats (\<lambda>t. \<lparr>Year = 1, Month = 1, Day = 1, Hour = 0, Minute = 0\<rparr>) 5
     \<lparr>FiveHour = Some \<lparr>Utilization = 0, ResetsAt = [], ResetsAtTime = 0\<rparr>,
      SevenDay = Some \<lparr>Utilization = 0, ResetsAt = [], ResetsAtTime = 0\<rparr>,
      SevenDayOAuthApps = None,
      SevenDayOpus = Some \<lparr>Utilization = 0, ResetsAt = [], ResetsAtTime = 0\<rparr>,
      IguanaNecktie = None, LastUpdated = 5\<rparr> ! 1 =
     ''5-Hour Session:    0%  (no active session)'' @ [CHR 0x0A] \<and>
   displayUsageStats (\<lambda>t. \<lparr>Year = 1, Month = 1, Day = 1, Hour = 0, Minute = 0\<rparr>) 5
     \<lparr>FiveHour = Some \<lparr>Utilization = 0, ResetsAt = [], ResetsAtTime = 0\<rparr>,
      SevenDay = Some \<lparr>Utilization = 0, ResetsAt = [], ResetsAtTime = 0\<rparr>,
      SevenDayOAuthApps = None,
      SevenDayOpus = Some \<lparr>Utilization = 0, ResetsAt = [], ResetsAtTime = 0\<rparr>,
      IguanaNecktie = None, LastUpdated = 5\<rparr> ! 2 = ''Weekly (All):    0%'' @ [CHR 0x0A] \<and>
   displayUsageStats (\<lambda>t. \<lparr>Year = 1, Month = 1, Day = 1, Hour = 0, Minute = 0\<rparr>) 5
     \<lparr>FiveHour = Some \<lparr>Utilization = 0, ResetsAt = [], ResetsAtTime = 0\<rparr>,
      SevenDay = Some \<lparr>Utilization = 0, ResetsAt = [], ResetsAtTime = 0\<rparr>,
      SevenDayOAuthApps = None,
      SevenDayOpus = Some \<lparr>Utilization = 0, ResetsAt = [], ResetsAtTime = 0\<rparr>,
      IguanaNecktie = None, LastUpdated = 5\<rparr> ! 3 = ''Weekly (Opus):    0%'' @ [CHR 0x0A]"
proof -
  let ?l = "\<lparr>Utilization = 0, ResetsAt = [], ResetsAtTime = 0\<rparr>"
  let ?loc = "\<lambda>t::int. \<lparr>Year = 1, Month = 1, Day = 1, Hour = 0, Minute = 0\<rparr>"
  let ?limits = "\<lparr>FiveHour = Some ?l, SevenDay = Some ?l, SevenDayOAuthApps = None,
      SevenDayOpus = Some ?l, IguanaNecktie = None, LastUpdated = 5\<rparr>"
  have h1: "roundUtilization (Utilization ?l) = 0" by code_simp
  have h2: "IsZero (ResetsAtTime ?l)" by (simp add: IsZero_def)
  from no_active_session [OF h1 h2, where loc = ?loc and now = 5 and limits = ?limits
      and label = "''Weekly (All):''"]
  show ?thesis by simp
qed

text \<open>
  \<open>displayUsageStats\<close> passes an empty message for the two weekly windows; with an
  empty message \<open>formatConsoleUsage\<close> ends the line after the percent.
\<close>

lemma weekly_console_line:
  assumes "roundUtilization (Utilization l) = 0" and "IsZero (ResetsAtTime l)"
  shows "formatConsoleUsage loc now (Some l) label [] = label @ ''    0%'' @ [CHR 0x0A]"
  using assms
  by (simp add: formatConsoleUsage_def calculateTimeUntilReset_zero fmt_wd_3_0)

section \<open>A fetch that fails\<close>

text \<open>
  Claim C2. When the fetch fails, the cache \<open>lastLimits\<close> is what it was, the tray title
  is the error indicator, and the first menu line reads
  \<^verbatim>\<open>Session expired - please login again\<close> exactly when \<^verbatim>\<open>errors.Is(err, ErrAuthFailed)\<close>
  holds; for any other failure it reads \<^verbatim>\<open>Error loading data\<close>.
\<close>

theorem failed_fetch:
  assumes "claudeClient s = Some c" and "fetch c = Inl err"
  shows "lastLimits (updateStats loc now fetch s) = lastLimits s \<and>
     trayTitle (updateStats loc now fetch s) = white @ '' Error'' \<and>
     (mCurrentSession (updateStats loc now fetch s) = ''Session expired - please login again''
        \<longleftrightarrow> errors_Is err ErrAuthFailed) \<and>
     (\<not> errors_Is err ErrAuthFailed \<longrightarrow>
        mCurrentSession (updateStats loc now fetch s) = ''Error loading data'')"
  using assms by (simp add: updateStats_def Let_def)

theorem failed_fetch_witness:
  "lastLimits (updateStats (\<lambda>t. \<lparr>Year = 2025, Month = 1, Day = 1, Hour = 0, Minute = 0\<rparr>) 1
      (\<lambda>c. Inl (Wrapped ''authentication failed - session may have expired (status 401)''
        ErrAuthFailed))
      \<lparr>trayTitle = ''x'', mCurrentSession = ''a'', mWeeklyAll = ''b'', mWeeklyOpus = ''c'',
        appConfig = zeroConfig, claudeClient = Some \<lparr>sessionKey = ''k'', organizationID = ''o''\<rparr>,
        lastLimits = Some \<lparr>FiveHour = None, SevenDay = None, SevenDayOAuthApps = None,
          SevenDayOpus = None, IguanaNecktie = None, LastUpdated = 7\<rparr>\<rparr>) =
     Some \<lparr>FiveHour = None, SevenDay = None, SevenDayOAuthApps = None,
          SevenDayOpus = None, IguanaNecktie = None, LastUpdated = 7\<rparr> \<and>
   mCurrentSession (updateStats (\<lambda>t. \<lparr>Year = 2025, Month = 1, Day = 1, Hour = 0, Minute = 0\<rparr>) 1
      (\<lambda>c. Inl (Wrapped ''authentication failed - session may have expired (status 401)''
        ErrAuthFailed))
      \<lparr>trayTitle = ''x'', mCurrentSession = ''a'', mWeeklyAll = ''b'', mWeeklyOpus = ''c'',
        appConfig = zeroConfig, claudeClient = Some \<lparr>sessionKey = ''k'', organizationID = ''o''\<rparr>,
        lastLimits = Some \<lparr>FiveHour = None, SevenDay = None, SevenDayOAuthApps = None,
          SevenDayOpus = None, IguanaNecktie = None, LastUpdated = 7\<rparr>\<rparr>) =
     ''Session expired - please login again'' \<and>
   mCurrentSession (updateStats (\<lambda>t. \<lparr>Year = 2025, Month = 1, Day = 1, Hour = 0, Minute = 0\<rparr>) 1
      (\<lambda>c. Inl (Plain ''unexpected status code 500: ''))
      \<lparr>trayTitle = ''x'', mCurrentSession = ''a'', mWeeklyAll = ''b'', mWeeklyOpus = ''c'',
        appConfig = zeroConfig, claudeClient = Some \<lparr>sessionKey = ''k'', organizationID = ''o''\<rparr>,
        lastLimits = None\<rparr>) = ''Error loading data''"
proof -
  let ?loc = "\<lambda>t::int. \<lparr>Year = 2025, Month = 1, Day = 1, Hour = 0, Minute = 0\<rparr>"
  let ?c = "\<lparr>sessionKey = ''k'', organizationID = ''o''\<rparr>"
  let ?old = "\<lparr>FiveHour = None, SevenDay = None, SevenDayOAuthApps = None,
          SevenDayOpus = None, IguanaNecktie = None, LastUpdated = 7\<rparr>"
  let ?s = "\<lparr>trayTitle = ''x'', mCurrentSession = ''a'', mWeeklyAll = ''b'', mWeeklyOpus = ''c'',
        appConfig = zeroConfig, claudeClient = Some ?c, lastLimits = Some ?old\<rparr>"
  let ?u = "\<lparr>trayTitle = ''x'', mCurrentSession = ''a'', mWeeklyAll = ''b'', mWeeklyOpus = ''c'',
        appConfig = zeroConfig, claudeClient = Some ?c, lastLimits = None\<rparr>"
  let ?auth = "Wrapped ''authentication failed - session may have expired (status 401)''
        ErrAuthFailed"
  let ?other = "Plain ''unexpected status code 500: ''"
  let ?f = "\<lambda>c::ClaudeUsageClient. (Inl ?auth :: go_error + UsageLimits)"
  let ?g = "\<lambda>c::ClaudeUsageClient. (Inl ?other :: go_error + UsageLimits)"
  have h1: "claudeClient ?s = Some ?c" by simp
  have h2: "?f ?c = Inl ?auth" by simp
  have h3: "claudeClient ?u = Some ?c" by simp
  have h4: "?g ?c = Inl ?other" by simp
  have a: "errors_Is ?auth ErrAuthFailed" by simp
  have b: "\<not> errors_Is ?other ErrAuthFailed" by simp
  from failed_fetch [where fetch = ?f and loc = ?loc and now = 1, OF h1 h2]
    failed_fetch [where fetch = ?g and loc = ?loc and now = 1, OF h3 h4] a b
  show ?thesis by simp
qed

section \<open>A successful fetch: the first scenario\<close>

lemma Until_in_range:
  assumes "0 \<le> t - now" "t - now < 84 * NsPerMinute"
  shows "Until now t = t - now"
  using assms
  by (simp add: Until_def Sub_def Let_def maxDuration_def minDuration_def NsPerMinute_def)

lemma whole_minutes_83:
  assumes "83 * NsPerMinute \<le> d" "d < 84 * NsPerMinute"
  shows "d div NsPerMinute = 83"
proof -
  define r where "r = d - 83 * NsPerMinute"
  have r: "0 \<le> r" "r < NsPerMinute" using assms by (simp_all add: r_def)
  have "d = r + 83 * NsPerMinute" by (simp add: r_def)
  then have "d div NsPerMinute = (r + 83 * NsPerMinute) div NsPerMinute" by simp
  also have "\<dots> = 83 + r div NsPerMinute"
    by (rule div_mult_self1) (simp add: NsPerMinute_def)
  also have "r div NsPerMinute = 0" using r by (simp add: div_pos_pos_trivial)
  finally show ?thesis by simp
qed

lemma eighty_minutes:
  "roundToTenMinutes 83 sdiv 60 = 1" "roundToTenMinutes 83 smod 60 = 20"
  by code_simp+

lemma calculateTimeUntilReset_83:
  assumes "t \<noteq> 0" "83 * NsPerMinute \<le> t - now" "t - now < 84 * NsPerMinute"
  shows "calculateTimeUntilReset now t = (1, 20, True)"
proof -
  have d0: "0 \<le> t - now" using assms(2) by (simp add: NsPerMinute_def)
  have u: "Until now t = t - now" using d0 assms(3) by (rule Until_in_range)
  have w: "(t - now) div NsPerMinute = 83" using assms(2,3) by (rule whole_minutes_83)
  have "go_int (Minutes (t - now)) = (t - now) div NsPerMinute"
    using d0 by (rule go_int_Minutes) (simp add: w)
  then have n: "go_int (Minutes (t - now)) = 83" by (simp add: w)
  show ?thesis
    using assms(1) d0 by (simp add: calculateTimeUntilReset_def IsZero_def u n eighty_minutes Let_def)
qed

lemma percent_42: "roundUtilization (f64 (423 / 10)) = 42" by code_simp
lemma tier_42: "getColorIndicator (f64 (423 / 10)) = green" by code_simp
lemma fmt_42: "fmt_d 42 = ''42''" "fmt_d 1 = ''1''" "fmt_d 20 = ''20''" by code_simp+

text \<open>
  Claim C5, as the code has it. After a successful fetch whose current-session window
  has the utilization 42.3 (the float64 nearest to it) and resets in 1 hour 23 minutes
  (and less than a minute more), with the current session selected for the menu bar, the
  tray title is the low-tier
  indicator (green), 42 percent and the time to the reset rounded to ten minutes, 1h20m;
  the first menu line shows the same percent and the same rounded time, and the snapshot
  is cached.
\<close>

theorem scenario_A:
  assumes "claudeClient s = Some c" and "fetch c = Inr limits"
    and "FiveHour limits = Some l" and "Utilization l = f64 (423 / 10)"
    and "ResetsAtTime l \<noteq> 0"
    and "83 * NsPerMinute \<le> ResetsAtTime l - now"
    and "ResetsAtTime l - now < 84 * NsPerMinute"
    and "MenuBarIndicator (appConfig s) = ''currentSession''"
  shows "trayTitle (updateStats loc now fetch s) = green @ '' 42% (1h20m)'' \<and>
     mCurrentSession (updateStats loc now fetch s) =
       ''5-Hour Session: 42% (resets '' @ formatResetTime loc (ResetsAtTime l) @
       '', in 1h 20m)'' \<and>
     lastLimits (updateStats loc now fetch s) = Some limits"
  using assms calculateTimeUntilReset_83 [of "ResetsAtTime l" now]
  by (simp add: updateStats_def updateMenuBarDisplay_def getSelectedLimit_def Let_def
      formatUsageWithReset_def percent_42 tier_42 fmt_42)

text \<open>
  The claim as stated asks for the mid-tier indicator (yellow); 42.3 is below 50, and
  the title starts with the green one.
\<close>

theorem scenario_A_not_mid_tier:
  "trayTitle (updateStats (\<lambda>t. \<lparr>Year = 2025, Month = 1, Day = 1, Hour = 1, Minute = 23\<rparr>) 1
      (\<lambda>c. Inr \<lparr>FiveHour = Some \<lparr>Utilization = f64 (423 / 10), ResetsAt = ''r'',
          ResetsAtTime = 1 + 83 * NsPerMinute\<rparr>, SevenDay = None, SevenDayOAuthApps = None,
          SevenDayOpus = None, IguanaNecktie = None, LastUpdated = 1\<rparr>)
      \<lparr>trayTitle = ''x'', mCurrentSession = ''a'', mWeeklyAll = ''b'', mWeeklyOpus = ''c'',
        appConfig = zeroConfig\<lparr>MenuBarIndicator := ''currentSession''\<rparr>,
        claudeClient = Some \<lparr>sessionKey = ''k'', organizationID = ''o''\<rparr>,
        lastLimits = None\<rparr>) = green @ '' 42% (1h20m)'' \<and>
   green @ '' 42% (1h20m)'' \<noteq> yellow @ '' 42% (1h20m)'' \<and>
   getColorIndicator (f64 (423 / 10)) \<noteq> yellow"
  by code_simp

theorem scenario_A_witness:
  "trayTitle (updateStats (\<lambda>t. \<lparr>Year = 2025, Month = 1, Day = 1, Hour = 1, Minute = 23\<rparr>) 1
      (\<lambda>c. Inr \<lparr>FiveHour = Some \<lparr>Utilization = f64 (423 / 10), ResetsAt = ''r'',
          ResetsAtTime = 1 + 83 * NsPerMinute\<rparr>, SevenDay = None, SevenDayOAuthApps = None,
          SevenDayOpus = None, IguanaNecktie = None, LastUpdated = 1\<rparr>)
      \<lparr>trayTitle = ''x'', mCurrentSession = ''a'', mWeeklyAll = ''b'', mWeeklyOpus = ''c'',
        appConfig = zeroConfig\<lparr>MenuBarIndicator := ''currentSession''\<rparr>,
        claudeClient = Some \<lparr>sessionKey = ''k'', organizationID = ''o''\<rparr>,
        lastLimits = None\<rparr>) = green @ '' 42% (1h20m)'' \<and>
   mCurrentSession (updateStats (\<lambda>t. \<lparr>Year = 2025, Month = 1, Day = 1, Hour = 1, Minute = 23\<rparr>) 1
      (\<lambda>c. Inr \<lparr>FiveHour = Some \<lparr>Utilization = f64 (423 / 10), ResetsAt = ''r'',
          ResetsAtTime = 1 + 83 * NsPerMinute\<rparr>, SevenDay = None, SevenDayOAuthApps = None,
          SevenDayOpus = None, IguanaNecktie = None, LastUpdated = 1\<rparr>)
      \<lparr>trayTitle = ''x'', mCurrentSession = ''a'', mWeeklyAll = ''b'', mWeeklyOpus = ''c'',
        appConfig = zeroConfig\<lparr>MenuBarIndicator := ''currentSession''\<rparr>,
        claudeClient = Some \<lparr>sessionKey = ''k'', organizationID = ''o''\<rparr>,
        lastLimits = None\<rparr>) =
     ''5-Hour Session: 42% (resets 2025-01-01 01:20, in 1h 20m)''"
proof -
  let ?loc = "\<lambda>t::int. \<lparr>Year = 2025, Month = 1, Day = 1, Hour = 1, Minute = 23\<rparr>"
  let ?c = "\<lparr>sessionKey = ''k'', organizationID = ''o''\<rparr>"
  let ?l = "\<lparr>Utilization = f64 (423 / 10), ResetsAt = ''r'',
          ResetsAtTime = 1 + 83 * NsPerMinute\<rparr>"
  let ?limits = "\<lparr>FiveHour = Some ?l, SevenDay = None, SevenDayOAuthApps = None,
          SevenDayOpus = None, IguanaNecktie = None, LastUpdated = 1\<rparr>"
  let ?f = "\<lambda>c::ClaudeUsageClient. (Inr ?limits :: go_error + UsageLimits)"
  let ?s = "\<lparr>trayTitle = ''x'', mCurrentSession = ''a'', mWeeklyAll = ''b'', mWeeklyOpus = ''c'',
        appConfig = zeroConfig\<lparr>MenuBarIndicator := ''currentSession''\<rparr>,
        claudeClient = Some ?c, lastLimits = None\<rparr>"
  have h1: "claudeClient ?s = Some ?c" by simp
  have h2: "?f ?c = Inr ?limits" by simp
  have h3: "FiveHour ?limits = Some ?l" by simp
  have h4: "Utilization ?l = f64 (423 / 10)" by simp
  have h5: "ResetsAtTime ?l \<noteq> 0" by (simp add: NsPerMinute_def)
  have h6: "83 * NsPerMinute \<le> ResetsAtTime ?l - 1" by simp
  have h7: "ResetsAtTime ?l - 1 < 84 * NsPerMinute" by (simp add: NsPerMinute_def)
  have h8: "MenuBarIndicator (appConfig ?s) = ''currentSession''" by simp
  have f: "formatResetTime ?loc (1 + 83 * NsPerMinute) = ''2025-01-01 01:20''" by code_simp
  from scenario_A [where fetch = ?f and loc = ?loc and now = 1 and s = ?s and c = ?c
      and limits = ?limits and l = ?l, OF h1 h2 h3 h4 h5 h6 h7 h8] f
  show ?thesis by simp
qed

section \<open>The liveness marker\<close>

lemma isRunning_absent: "pidFile s = None \<Longrightarrow> isRunning s = (False, s)"
  by (simp add: isRunning_def)

lemma isRunning_true:
  assumes "fst (isRunning s)"
  shows "\<exists>data pid. pidFile s = Some data \<and> Atoi data = Some pid \<and>
           findProcess s pid \<and> signal0 s pid \<and> snd (isRunning s) = s"
proof (cases "pidFile s")
  case None
  with assms show ?thesis by (simp add: isRunning_def)
next
  case (Some data)
  note f = this
  show ?thesis
  proof (cases "Atoi data")
    case None
    with assms f show ?thesis by (simp add: isRunning_def)
  next
    case (Some pid)
    with assms f show ?thesis by (simp add: isRunning_def split: if_splits)
  qed
qed

text \<open>
  Claim C1. When the marker file holds text that is not a process identifier, or the
  identifier of a process the liveness probe does not reach (the process is not found or
  signal 0 fails), \<open>isRunning\<close> returns false and the file is gone; called again on the
  state it left, it returns false and changes nothing. And \<open>isRunning\<close> returns true
  only when the file holds an identifier for which the probe succeeds (it then leaves
  the state as it was).
\<close>

theorem stale_marker_removed:
  assumes "pidFile s = Some data"
    and "Atoi data = None \<or> (\<exists>pid. Atoi data = Some pid \<and> \<not> (findProcess s pid \<and> signal0 s pid))"
  shows "isRunning s = (False, s\<lparr>pidFile := None\<rparr>) \<and>
     isRunning (snd (isRunning s)) = (False, snd (isRunning s)) \<and>
     (\<forall>s'. fst (isRunning s') \<longrightarrow>
        (\<exists>data' pid. pidFile s' = Some data' \<and> Atoi data' = Some pid \<and>
           findProcess s' pid \<and> signal0 s' pid \<and> snd (isRunning s') = s'))"
proof -
  from assms(2) have a: "isRunning s = (False, s\<lparr>pidFile := None\<rparr>)"
  proof
    assume "Atoi data = None"
    with assms(1) show ?thesis by (simp add: isRunning_def Remove_def)
  next
    assume "\<exists>pid. Atoi data = Some pid \<and> \<not> (findProcess s pid \<and> signal0 s pid)"
    then obtain pid where "Atoi data = Some pid" "\<not> (findProcess s pid \<and> signal0 s pid)"
      by blast
    with assms(1) show ?thesis by (simp add: isRunning_def Remove_def)
  qed
  have b: "isRunning (snd (isRunning s)) = (False, snd (isRunning s))"
    unfolding a by (simp add: isRunning_absent)
  from a b isRunning_true show ?thesis by blast
qed

text \<open>\<open>Atoi\<close> on some texts: a trailing newline is not accepted, the range is int64.\<close>

lemma Atoi_examples:
  "Atoi ''4242'' = Some 4242" "Atoi ''-17'' = Some (- 17)" "Atoi ''+8'' = Some 8"
  "Atoi '''' = None" "Atoi ''-'' = None" "Atoi ''12a'' = None" "Atoi (''4242'' @ [CHR 0x0A]) = None"
  "Atoi ''9223372036854775807'' = Some 9223372036854775807"
  "Atoi ''9223372036854775808'' = None"
  "Atoi ''-9223372036854775808'' = Some (- 9223372036854775808)"
  by (simp_all add: Atoi_def isDigit_def digitsValue_def)

theorem stale_marker_removed_witness:
  "isRunning \<lparr>pidFile = Some ''4242'', findProcess = (\<lambda>pid. True), signal0 = (\<lambda>pid. pid = 1)\<rparr> =
     (False, \<lparr>pidFile = None, findProcess = (\<lambda>pid. True), signal0 = (\<lambda>pid. pid = 1)\<rparr>) \<and>
   isRunning \<lparr>pidFile = Some ''not a pid'', findProcess = (\<lambda>pid. True), signal0 = (\<lambda>pid. True)\<rparr> =
     (False, \<lparr>pidFile = None, findProcess = (\<lambda>pid. True), signal0 = (\<lambda>pid. True)\<rparr>) \<and>
   fst (isRunning \<lparr>pidFile = Some ''1'', findProcess = (\<lambda>pid. True), signal0 = (\<lambda>pid. pid = 1)\<rparr>)"
proof -
  let ?s = "\<lparr>pidFile = Some ''4242'', findProcess = (\<lambda>pid. True), signal0 = (\<lambda>pid::int. pid = 1)\<rparr>"
  let ?u = "\<lparr>pidFile = Some ''not a pid'', findProcess = (\<lambda>pid. True), signal0 = (\<lambda>pid::int. True)\<rparr>"
  have a: "Atoi ''4242'' = Some 4242" by (simp add: Atoi_def isDigit_def digitsValue_def)
  have b: "Atoi ''not a pid'' = None" by (simp add: Atoi_def isDigit_def digitsValue_def)
  have c: "Atoi ''1'' = Some 1" by (simp add: Atoi_def isDigit_def digitsValue_def)
  have h1: "pidFile ?s = Some ''4242''" by simp
  have h2: "Atoi ''4242'' = None \<or>
     (\<exists>pid. Atoi ''4242'' = Some pid \<and> \<not> (findProcess ?s pid \<and> signal0 ?s pid))"
    using a by simp
  have h3: "pidFile ?u = Some ''not a pid''" by simp
  have h4: "Atoi ''not a pid'' = None \<or>
     (\<exists>pid. Atoi ''not a pid'' = Some pid \<and> \<not> (findProcess ?u pid \<and> signal0 ?u pid))"
    using b by simp
  have d: "fst (isRunning \<lparr>pidFile = Some ''1'', findProcess = (\<lambda>pid. True), signal0 = (\<lambda>pid. pid = 1)\<rparr>)"
    using c by (simp add: isRunning_def)
  from stale_marker_removed [OF h1 h2] stale_marker_removed [OF h3 h4] d
  show ?thesis by simp
qed

section \<open>Detaching\<close>

text \<open>
  Claim C4, as the code has it. With \<^verbatim>\<open>CLAUDE_MONITOR_DAEMON=1\<close> in the environment
  \<open>daemonize\<close> returns at once with no effect. Otherwise it resolves the path of the
  executable and starts that executable as a child whose environment is the parent's
  followed by the flag and whose standard streams are all nil; it then prints the
  child's process identifier (and two lines of help), sleeps the fixed delay of 100
  milliseconds and exits with status 0. When the path cannot be resolved, or the child
  cannot be started, it writes a diagnostic to standard error and exits with status 1.
\<close>

theorem daemonize_contract:
  "(Getenv p ''CLAUDE_MONITOR_DAEMON'' = ''1'' \<longrightarrow> daemonize p = ([], Returns)) \<and>
   (Getenv p ''CLAUDE_MONITOR_DAEMON'' \<noteq> ''1'' \<and> Executable p = Inr executable \<and>
    Start p \<lparr>Path = executable, Args = [executable],
      Env = Environ p @ [''CLAUDE_MONITOR_DAEMON=1''],
      Stdin = None, Stdout = None, Stderr = None\<rparr> = Inr pid \<longrightarrow>
    daemonize p =
      ([StartProcess \<lparr>Path = executable, Args = [executable],
          Env = Environ p @ [''CLAUDE_MONITOR_DAEMON=1''],
          Stdin = None, Stdout = None, Stderr = None\<rparr>,
        Print (''Claude Monitor Lite started in background (PID: '' @ fmt_d pid @ '')'' @
          [CHR 0x0A]),
        Print (''Click the menu bar icon to view usage.'' @ [CHR 0x0A]),
        Print (''Quit via the menu bar to stop.'' @ [CHR 0x0A]),
        Sleep (100 * 1000000)],
       Exits 0)) \<and>
   (Getenv p ''CLAUDE_MONITOR_DAEMON'' \<noteq> ''1'' \<and> Executable p = Inl err \<longrightarrow>
    daemonize p =
      ([PrintErr (''Failed to get executable path: '' @ Error err @ [CHR 0x0A])], Exits 1)) \<and>
   (Getenv p ''CLAUDE_MONITOR_DAEMON'' \<noteq> ''1'' \<and> Executable p = Inr executable \<and>
    Start p \<lparr>Path = executable, Args = [executable],
      Env = Environ p @ [''CLAUDE_MONITOR_DAEMON=1''],
      Stdin = None, Stdout = None, Stderr = None\<rparr> = Inl err \<longrightarrow>
    snd (daemonize p) = Exits 1 \<and>
    last (fst (daemonize p)) =
      PrintErr (''Failed to start background process: '' @ Error err @ [CHR 0x0A]))"
  by (simp add: daemonize_def Command_def daemonStartupDelay_def Let_def)

text \<open>
  The claim as stated has the delay before the printing. In the code the line with the
  process identifier is printed first and the delay is the last effect before the exit.
\<close>

theorem daemonize_prints_before_waiting:
  "fst (daemonize \<lparr>environ = [(''HOME'', ''/root'')],
      Executable = Inr ''/usr/local/bin/claude-monitor-lite'',
      Start = (\<lambda>c. Inr 4242)\<rparr>) =
     [StartProcess \<lparr>Path = ''/usr/local/bin/claude-monitor-lite'',
        Args = [''/usr/local/bin/claude-monitor-lite''],
        Env = [''HOME=/root'', ''CLAUDE_MONITOR_DAEMON=1''],
        Stdin = None, Stdout = None, Stderr = None\<rparr>,
      Print (''Claude Monitor Lite started in background (PID: 4242)'' @ [CHR 0x0A]),
      Print (''Click the menu bar icon to view usage.'' @ [CHR 0x0A]),
      Print (''Quit via the menu bar to stop.'' @ [CHR 0x0A]),
      Sleep 100000000] \<and>
   \<not> waits_then_prints
     (fst (daemonize \<lparr>environ = [(''HOME'', ''/root'')],
        Executable = Inr ''/usr/local/bin/claude-monitor-lite'',
        Start = (\<lambda>c. Inr 4242)\<rparr>))
     (''Claude Monitor Lite started in background (PID: 4242)'' @ [CHR 0x0A])"
  by code_simp

theorem daemonize_contract_witness:
  "daemonize \<lparr>environ = [(''HOME'', ''/root''), (''CLAUDE_MONITOR_DAEMON'', ''1'')],
      Executable = Inr ''/usr/local/bin/claude-monitor-lite'',
      Start = (\<lambda>c. Inr 4242)\<rparr> = ([], Returns) \<and>
   daemonize \<lparr>environ = [(''HOME'', ''/root'')],
      Executable = Inr ''/usr/local/bin/claude-monitor-lite'',
      Start = (\<lambda>c. Inr 4242)\<rparr> =
     ([StartProcess \<lparr>Path = ''/usr/local/bin/claude-monitor-lite'',
          Args = [''/usr/local/bin/claude-monitor-lite''],
          Env = [''HOME=/root'', ''CLAUDE_MONITOR_DAEMON=1''],
          Stdin = None, Stdout = None, Stderr = None\<rparr>,
        Print (''Claude Monitor Lite started in background (PID: 4242)'' @ [CHR 0x0A]),
        Print (''Click the menu bar icon to view usage.'' @ [CHR 0x0A]),
        Print (''Quit via the menu bar to stop.'' @ [CHR 0x0A]),
        Sleep 100000000],
      Exits 0) \<and>
   daemonize \<lparr>environ = [(''HOME'', ''/root'')],
      Executable = Inl (Plain ''no such file''),
      Start = (\<lambda>c. Inr 4242)\<rparr> =
     ([PrintErr (''Failed to get executable path: no such file'' @ [CHR 0x0A])], Exits 1) \<and>
   snd (daemonize \<lparr>environ = [(''HOME'', ''/root'')],
      Executable = Inr ''/usr/local/bin/claude-monitor-lite'',
      Start = (\<lambda>c. Inl (Plain ''permission denied''))\<rparr>) = Exits 1"
proof -
  let ?exe = "''/usr/local/bin/claude-monitor-lite''"
  let ?p1 = "\<lparr>environ = [(''HOME'', ''/root''), (''CLAUDE_MONITOR_DAEMON'', ''1'')],
      Executable = Inr ?exe, Start = (\<lambda>c::Cmd. (Inr 4242 :: go_error + int))\<rparr>"
  let ?p2 = "\<lparr>environ = [(''HOME'', ''/root'')],
      Executable = Inr ?exe, Start = (\<lambda>c::Cmd. (Inr 4242 :: go_error + int))\<rparr>"
  let ?p3 = "\<lparr>environ = [(''HOME'', ''/root'')],
      Executable = Inl (Plain ''no such file''),
      Start = (\<lambda>c::Cmd. (Inr 4242 :: go_error + int))\<rparr>"
  let ?p4 = "\<lparr>environ = [(''HOME'', ''/root'')],
      Executable = Inr ?exe,
      Start = (\<lambda>c::Cmd. (Inl (Plain ''permission denied'') :: go_error + int))\<rparr>"
  have e1: "Getenv ?p1 ''CLAUDE_MONITOR_DAEMON'' = ''1''" by (simp add: Getenv_def)
  have e2: "Getenv ?p2 ''CLAUDE_MONITOR_DAEMON'' \<noteq> ''1''" by (simp add: Getenv_def)
  have e3: "Getenv ?p3 ''CLAUDE_MONITOR_DAEMON'' \<noteq> ''1''" by (simp add: Getenv_def)
  have e4: "Getenv ?p4 ''CLAUDE_MONITOR_DAEMON'' \<noteq> ''1''" by (simp add: Getenv_def)
  have v: "Environ ?p2 = [''HOME=/root'']" "Environ ?p4 = [''HOME=/root'']"
    by (simp_all add: Environ_def)
  have d: "fmt_d 4242 = ''4242''" by code_simp
  from daemonize_contract [of ?p1] e1
  have a: "daemonize ?p1 = ([], Returns)" by blast
  from daemonize_contract [of ?p2 ?exe 4242] e2 v d
  have b: "daemonize ?p2 =
     ([StartProcess \<lparr>Path = ?exe, Args = [?exe],
          Env = [''HOME=/root'', ''CLAUDE_MONITOR_DAEMON=1''],
          Stdin = None, Stdout = None, Stderr = None\<rparr>,
        Print (''Claude Monitor Lite started in background (PID: 4242)'' @ [CHR 0x0A]),
        Print (''Click the menu bar icon to view usage.'' @ [CHR 0x0A]),
        Print (''Quit via the menu bar to stop.'' @ [CHR 0x0A]),
        Sleep 100000000],
      Exits 0)" by simp
  from daemonize_contract [of ?p3 _ _ "Plain ''no such file''"] e3
  have c: "daemonize ?p3 =
     ([PrintErr (''Failed to get executable path: no such file'' @ [CHR 0x0A])], Exits 1)"
    by simp
  from daemonize_contract [of ?p4 ?exe _ "Plain ''permission denied''"] e4 v
  have "snd (daemonize ?p4) = Exits 1" by simp
  with a b c show ?thesis by blast
qed

section \<open>Saving the display mode\<close>

lemma fieldByName_tags:
  "fieldByName ''sessionKey'' = Some SessionKeyField"
  "fieldByName ''organizationId'' = Some OrganizationIDField"
  "fieldByName ''savedAt'' = Some SavedAtField"
  "fieldByName ''menuBarIndicator'' = Some MenuBarIndicatorField"
  by code_simp+

lemma decode_tags:
  "decodeMember pt c (''sessionKey'', JString x) = Some (c\<lparr>SessionKey := x\<rparr>)"
  "decodeMember pt c (''organizationId'', JString x) = Some (c\<lparr>OrganizationID := x\<rparr>)"
  "decodeMember pt c (''menuBarIndicator'', JString x) = Some (c\<lparr>MenuBarIndicator := x\<rparr>)"
  "pt x = Some t \<Longrightarrow> decodeMember pt c (''savedAt'', JString x) = Some (c\<lparr>SavedAt := Some t\<rparr>)"
  by (simp_all add: decodeMember_def fieldByName_tags decodeString_def decodeTime_def)

lemma decodeMembers_append:
  "decodeMembers pt c (xs @ ys) =
     (case decodeMembers pt c xs of None \<Rightarrow> None | Some c' \<Rightarrow> decodeMembers pt c' ys)"
  by (induction xs arbitrary: c) (auto split: option.splits)

lemma decode_omitempty:
  "decodeMembers pt (c\<lparr>SessionKey := []\<rparr>) (omitempty ''sessionKey'' x) =
     Some (c\<lparr>SessionKey := x\<rparr>)"
  "decodeMembers pt (c\<lparr>OrganizationID := []\<rparr>) (omitempty ''organizationId'' x) =
     Some (c\<lparr>OrganizationID := x\<rparr>)"
  by (simp_all add: omitempty_def decode_tags)

lemma Unmarshal_MarshalIndent:
  assumes "\<forall>t. SavedAt c = Some t \<longrightarrow> (\<exists>str. ft t = Some str \<and> pt str = Some t)"
  shows "\<exists>data. MarshalIndent ft c = Some data \<and> Unmarshal pt data zeroConfig = Some c"
proof (cases "SavedAt c")
  case None
  have "Unmarshal pt (JObject (omitempty ''sessionKey'' (SessionKey c) @
            omitempty ''organizationId'' (OrganizationID c) @
            [(''menuBarIndicator'', JString (MenuBarIndicator c))])) zeroConfig = Some c"
    using None
    by (cases c) (simp add: Unmarshal_def decodeMembers_append omitempty_def decode_tags zeroConfig_def)
  with None show ?thesis by (simp add: MarshalIndent_def)
next
  case (Some t)
  with assms obtain str where t: "ft t = Some str" "pt str = Some t" by blast
  have "Unmarshal pt (JObject (omitempty ''sessionKey'' (SessionKey c) @
                 omitempty ''organizationId'' (OrganizationID c) @
                 [(''savedAt'', JString str),
                  (''menuBarIndicator'', JString (MenuBarIndicator c))])) zeroConfig = Some c"
    using Some t
    by (cases c) (simp add: Unmarshal_def decodeMembers_append omitempty_def decode_tags zeroConfig_def)
  with Some t show ?thesis by (simp add: MarshalIndent_def)
qed

text \<open>
  Claim C10, as the code has it. When the configuration file exists and
  \<^verbatim>\<open>json.Unmarshal\<close> decodes its content into a \<open>Config\<close> without error, saving a
  display mode writes a file that decodes to the same session key, organization
  identifier and save time, with the display mode the one given. The time codec of the
  Go library is assumed to format a time it has parsed, to a text that parses to the
  same time.
\<close>

theorem preserves_session_fields:
  assumes "file = Some (Doc existingData)"
    and "Unmarshal parseTime existingData zeroConfig = Some c"
    and "\<forall>t. SavedAt c = Some t \<longrightarrow>
           (\<exists>str. formatTime t = Some str \<and> parseTime str = Some t)"
  shows "\<exists>data c'.
     SaveConfigPreservingSession parseTime formatTime menuBarIndicator file =
       (None, Some (Doc data)) \<and>
     Unmarshal parseTime data zeroConfig = Some c' \<and>
     SessionKey c' = SessionKey c \<and> OrganizationID c' = OrganizationID c \<and>
     SavedAt c' = SavedAt c \<and> MenuBarIndicator c' = menuBarIndicator"
proof -
  let ?c = "c\<lparr>MenuBarIndicator := menuBarIndicator\<rparr>"
  from assms(3) have "\<forall>t. SavedAt ?c = Some t \<longrightarrow>
           (\<exists>str. formatTime t = Some str \<and> parseTime str = Some t)" by simp
  from Unmarshal_MarshalIndent [OF this] obtain data where
    d: "MarshalIndent formatTime ?c = Some data" "Unmarshal parseTime data zeroConfig = Some ?c"
    by blast
  from assms(1,2) d(1) have
    "SaveConfigPreservingSession parseTime formatTime menuBarIndicator file =
       (None, Some (Doc data))"
    by (simp add: SaveConfigPreservingSession_def Let_def)
  with d(2) show ?thesis by auto
qed

text \<open>
  A file can be JSON and still not decode: a number where the session key should be a
  string is a type error of \<^verbatim>\<open>json.Unmarshal\<close>, the code then starts from an empty
  \<open>Config\<close>, and the organization identifier that was in the file is not in the file
  written.
\<close>

theorem valid_json_session_lost:
  "SaveConfigPreservingSession exampleParseTime exampleFormatTime ''weeklyAll''
     (Some (Doc (JObject [(''sessionKey'', JNumber 5), (''organizationId'', JString ''org-1'')]))) =
   (None, Some (Doc (JObject [(''menuBarIndicator'', JString ''weeklyAll'')])))"
  by code_simp

text \<open>
  The same happens when the save time in the file is not an RFC 3339 timestamp: the
  session key is not in the file written.
\<close>

lemma unparsable_time_session_lost:
  "SaveConfigPreservingSession exampleParseTime exampleFormatTime ''weeklyAll''
     (Some (Doc (JObject [(''sessionKey'', JString ''sk-1''), (''savedAt'', JString ''yesterday'')]))) =
   (None, Some (Doc (JObject [(''menuBarIndicator'', JString ''weeklyAll'')])))"
  by code_simp

theorem preserves_session_fields_witness:
  "Unmarshal exampleParseTime
     (JObject [(''sessionKey'', JString ''sk-1''), (''organizationId'', JString ''org-1''),
        (''savedAt'', JString ''2025-01-01T00:00:00Z''),
        (''menuBarIndicator'', JString ''currentSession'')]) zeroConfig =
     Some \<lparr>SessionKey = ''sk-1'', OrganizationID = ''org-1'',
       SavedAt = Some 63871286400000000000, MenuBarIndicator = ''currentSession''\<rparr> \<and>
   SaveConfigPreservingSession exampleParseTime exampleFormatTime ''weeklyOpus''
     (Some (Doc (JObject [(''sessionKey'', JString ''sk-1''),
        (''organizationId'', JString ''org-1''),
        (''savedAt'', JString ''2025-01-01T00:00:00Z''),
        (''menuBarIndicator'', JString ''currentSession'')]))) =
     (None, Some (Doc (JObject [(''sessionKey'', JString ''sk-1''),
        (''organizationId'', JString ''org-1''),
        (''savedAt'', JString ''2025-01-01T00:00:00Z''),
        (''menuBarIndicator'', JString ''weeklyOpus'')])))"
proof -
  let ?doc = "JObject [(''sessionKey'', JString ''sk-1''), (''organizationId'', JString ''org-1''),
        (''savedAt'', JString ''2025-01-01T00:00:00Z''),
        (''menuBarIndicator'', JString ''currentSession'')]"
  let ?c = "\<lparr>SessionKey = ''sk-1'', OrganizationID = ''org-1'',
       SavedAt = Some 63871286400000000000, MenuBarIndicator = ''currentSession''\<rparr>"
  have h1: "Some (Doc ?doc) = Some (Doc ?doc)" by simp
  have h2: "Unmarshal exampleParseTime ?doc zeroConfig = Some ?c" by code_simp
  have h3: "\<forall>t. SavedAt ?c = Some t \<longrightarrow>
      (\<exists>str. exampleFormatTime t = Some str \<and> exampleParseTime str = Some t)"
    by (simp add: exampleFormatTime_def exampleParseTime_def)
  have r: "SaveConfigPreservingSession exampleParseTime exampleFormatTime ''weeklyOpus''
     (Some (Doc ?doc)) =
     (None, Some (Doc (JObject [(''sessionKey'', JString ''sk-1''),
        (''organizationId'', JString ''org-1''),
        (''savedAt'', JString ''2025-01-01T00:00:00Z''),
        (''menuBarIndicator'', JString ''weeklyOpus'')])))" by code_simp
  from preserves_session_fields [OF h1 h2 h3, of "''weeklyOpus''"] h2 r
  show ?thesis by simp
qed

end
